theory Spec2Isabelle
  imports Main
begin

section \<open>Data model (models/badge.js, models/badge-instance.js)\<close>

text \<open>
  A JavaScript string is modelled as a \<open>string\<close> whose characters are the UTF-16 code
  units below 256 (ASCII and Latin-1); strings with other code units are outside the model.
  An optional string field (one that may be \<open>undefined\<close> or \<open>null\<close>) is a
  \<open>string option\<close>. JavaScript numbers that count things (weights, requirements, credits,
  limits) are modelled as \<open>int\<close>.

  The records hold the fields of a document as they are stored. The \<open>trim\<close> setters of
  the schemas are applied where the methods below assign to a field that has one (the code
  and \<open>reservedFor\<close> of a new claim code, \<open>claimedBy\<close>, the default of \<open>shortname\<close>,
  the \<open>user\<close> and the \<open>assertion\<close> of a badge instance). The validators of the BadgeInstance schema
  (\<open>required\<close>, \<open>match\<close>) are part of saving an instance. The validators of the Badge
  schema (\<open>required\<close>, \<open>maxLength\<close>, \<open>enum\<close>, \<open>min\<close>) are not modelled: the
  badges of the model are documents that pass them. Descriptive fields that no method below
  reads (description, image, tags, criteria, ...) are left out of the records.
\<close>

text \<open>Truthiness of an optional string: \<open>undefined\<close>, \<open>null\<close> and \<open>''\<close> are falsy.\<close>

definition truthy :: "string option \<Rightarrow> bool" where
  "truthy v = (case v of None \<Rightarrow> False | Some s \<Rightarrow> s \<noteq> [])"

record ClaimCode =
  code :: string
  claimedBy :: "string option"
  reservedFor :: "string option"
  multi :: bool

record Behavior =
  shortname :: string
  count :: int

record Badge =
  badge_id :: string
  shortname :: string
  name :: string
  categoryAward :: "string option"
  categoryRequirement :: int
  categoryWeight :: int
  categories :: "string list"
  behaviors :: "Behavior list"
  claimCodes :: "ClaimCode list"

record BadgeInstance =
  user :: string
  badge :: string
  assertion :: "string option"
  hash :: "string option"
  userBadgeKey :: "string option"

text \<open>The object passed to \<open>earnableBy\<close> and \<open>creditsUntilAward\<close>: a tally of credits
  per behavior name.\<close>

record User =
  credit :: "string \<rightharpoonup> int"

text \<open>Errors: a driver error carries its numeric \<open>code\<close>; \<open>ValidationError\<close> is what a
  save calls back with when a validator fails; \<open>InvalidArgument\<close> is the \<open>Error\<close> thrown by
  \<open>addClaimCodes\<close>; \<open>TypeError\<close> is what dereferencing \<open>null\<close> raises.\<close>

datatype error = MongoError int | ValidationError | InvalidArgument | TypeError | OtherError string

text \<open>What an asynchronous operation does: it calls back with a result, calls back with an
  error, or throws (an exception the callback never sees).\<close>

datatype 'a async = Done 'a | Failed error | Threw error

text \<open>The document store: the Badge collection, the BadgeInstance collection (both in
  insertion order) and the lines written to the console.\<close>

record Store =
  badges :: "Badge list"
  instances :: "BadgeInstance list"
  console :: "string list"

section \<open>Strings\<close>

text \<open>\<open>String.prototype.trim\<close> removes white space at both ends. Among the code units
  below 256 the white space is: tab, line feed, vertical tab, form feed, carriage return,
  space and the no-break space.\<close>

definition isSpace :: "char \<Rightarrow> bool" where
  "isSpace c = (c \<in> set [CHR 0x09, CHR 0x0A, CHR 0x0B, CHR 0x0C, CHR 0x0D, CHR 0x20, CHR 0xA0])"

definition trim :: "string \<Rightarrow> string" where
  "trim s = rev (dropWhile isSpace (rev (dropWhile isSpace s)))"

text \<open>\<open>String.prototype.toLowerCase\<close>: below 256, the letters with a lower case are A to Z
  and the Latin-1 capitals 0xC0 to 0xDE (without the multiplication sign 0xD7); the lower
  case is 32 code units above.\<close>

definition upperCase :: string where
  "upperCase = ''ABCDEFGHIJKLMNOPQRSTUVWXYZ'' @
     [CHR 0xC0, CHR 0xC1, CHR 0xC2, CHR 0xC3, CHR 0xC4, CHR 0xC5, CHR 0xC6, CHR 0xC7, CHR 0xC8, CHR 0xC9,
      CHR 0xCA, CHR 0xCB, CHR 0xCC, CHR 0xCD, CHR 0xCE, CHR 0xCF, CHR 0xD0, CHR 0xD1, CHR 0xD2, CHR 0xD3,
      CHR 0xD4, CHR 0xD5, CHR 0xD6, CHR 0xD8, CHR 0xD9, CHR 0xDA, CHR 0xDB, CHR 0xDC, CHR 0xDD, CHR 0xDE]"

definition lowerCase :: string where
  "lowerCase = ''abcdefghijklmnopqrstuvwxyz'' @
     [CHR 0xE0, CHR 0xE1, CHR 0xE2, CHR 0xE3, CHR 0xE4, CHR 0xE5, CHR 0xE6, CHR 0xE7, CHR 0xE8, CHR 0xE9,
      CHR 0xEA, CHR 0xEB, CHR 0xEC, CHR 0xED, CHR 0xEE, CHR 0xEF, CHR 0xF0, CHR 0xF1, CHR 0xF2, CHR 0xF3,
      CHR 0xF4, CHR 0xF5, CHR 0xF6, CHR 0xF8, CHR 0xF9, CHR 0xFA, CHR 0xFB, CHR 0xFC, CHR 0xFD, CHR 0xFE]"

definition toLowerCase_char :: "char \<Rightarrow> char" where
  "toLowerCase_char c = (case map_of (zip upperCase lowerCase) c of Some l \<Rightarrow> l | None \<Rightarrow> c)"

section \<open>Claim codes\<close>

subsection \<open>Normalisation and lookup\<close>

text \<open>\<open>code.trim().replace(/ /g, '-').toLowerCase()\<close>\<close>

definition normalizeCode :: "string \<Rightarrow> string" where
  "normalizeCode c =
     map toLowerCase_char (map (\<lambda>x. if x = CHR '' '' then CHR ''-'' else x) (trim c))"

text \<open>The loop of \<open>getClaimCode\<close>: \<open>var idx = codes.length; while (idx--) ...\<close> walks the
  list from its last entry to its first and stops at the first match it meets.\<close>

fun getClaimCodeLoop :: "ClaimCode list \<Rightarrow> string \<Rightarrow> nat \<Rightarrow> nat option" where
  "getClaimCodeLoop codes normalizedCode 0 = None"
| "getClaimCodeLoop codes normalizedCode (Suc idx) =
     (if code (codes ! idx) = normalizedCode then Some idx
      else getClaimCodeLoop codes normalizedCode idx)"

text \<open>The position of the entry that \<open>getClaimCode\<close> returns (the methods that call it
  mutate that entry in place).\<close>

definition getClaimCodeIndex :: "Badge \<Rightarrow> string \<Rightarrow> nat option" where
  "getClaimCodeIndex this c =
     getClaimCodeLoop (claimCodes this) (normalizeCode c) (length (claimCodes this))"

definition getClaimCode :: "Badge \<Rightarrow> string \<Rightarrow> ClaimCode option" where
  "getClaimCode this c = map_option (\<lambda>idx. claimCodes this ! idx) (getClaimCodeIndex this c)"

definition hasClaimCode :: "Badge \<Rightarrow> string \<Rightarrow> bool" where
  "hasClaimCode this c = (getClaimCode this c \<noteq> None)"

definition claimCodeIsClaimed :: "Badge \<Rightarrow> string \<Rightarrow> bool option" where
  "claimCodeIsClaimed this c =
     (case getClaimCode this c of
        None \<Rightarrow> None
      | Some claim \<Rightarrow> Some (truthy (claimedBy claim) \<and> \<not> multi claim))"

subsection \<open>Redeeming, releasing, removing\<close>

text \<open>\<open>redeemClaimCode\<close> returns \<open>null\<close> (\<open>None\<close>), \<open>false\<close> or \<open>true\<close>, and may
  mutate the badge: the model returns the badge after the call with the value. The test
  compares the stored \<open>claimedBy\<close> with the argument as it is given; the assignment
  \<open>claim.claimedBy = email\<close> goes through the \<open>trim\<close> setter of the field.\<close>

definition redeemClaimCode :: "Badge \<Rightarrow> string \<Rightarrow> string \<Rightarrow> Badge \<times> bool option" where
  "redeemClaimCode this c email =
     (case getClaimCodeIndex this c of
        None \<Rightarrow> (this, None)
      | Some idx \<Rightarrow>
          (let claim = claimCodes this ! idx in
           if \<not> multi claim \<and> truthy (claimedBy claim) \<and> claimedBy claim \<noteq> Some email
           then (this, Some False)
           else (this\<lparr>claimCodes :=
                        (claimCodes this)[idx := claim\<lparr>claimedBy := Some (trim email)\<rparr>]\<rparr>,
                 Some True)))"

definition removeClaimCode :: "Badge \<Rightarrow> string \<Rightarrow> Badge" where
  "removeClaimCode this c = this\<lparr>claimCodes := filter (\<lambda>claim. code claim \<noteq> c) (claimCodes this)\<rparr>"

text \<open>\<open>releaseClaimCode\<close> does not test the result of \<open>getClaimCode\<close>: on \<open>null\<close> the
  assignment \<open>claim.claimedBy = null\<close> raises a TypeError. (The setter leaves \<open>null\<close> as
  it is.)\<close>

definition releaseClaimCode :: "Badge \<Rightarrow> string \<Rightarrow> error + (Badge \<times> bool)" where
  "releaseClaimCode this c =
     (case getClaimCodeIndex this c of
        None \<Rightarrow> Inl TypeError
      | Some idx \<Rightarrow>
          Inr (this\<lparr>claimCodes := (claimCodes this)[idx := (claimCodes this ! idx)\<lparr>claimedBy := None\<rparr>]\<rparr>,
               True))"

subsection \<open>Saving a badge\<close>

text \<open>
  Functions that the methods call and whose code is not in the sources are parameters of
  the model: \<open>util.slugify\<close>, \<open>util.hash\<close> (lib/util.js) and \<open>Badge#makeAssertion\<close>,
  which may call back with an error.
\<close>

record Env =
  util_slugify :: "string \<Rightarrow> string"
  util_hash :: "string \<Rightarrow> string"
  makeAssertion :: "Badge \<Rightarrow> string \<Rightarrow> error + string"

text \<open>\<open>if (!this.shortname && this.name) this.shortname = util.slugify(this.name)\<close>; the
  assignment goes through the \<open>trim\<close> setter of \<open>shortname\<close>.\<close>

definition setShortNameDefault :: "Env \<Rightarrow> Badge \<Rightarrow> Badge" where
  "setShortNameDefault env this =
     (if Badge.shortname this = [] \<and> name this \<noteq> []
      then this\<lparr>Badge.shortname := trim (util_slugify env (name this))\<rparr>
      else this)"

definition normalizeCategoryInfo :: "Badge \<Rightarrow> Badge" where
  "normalizeCategoryInfo this =
     (if truthy (categoryAward this)
      then this\<lparr>categories := [], categoryWeight := 0\<rparr>
      else this\<lparr>categoryRequirement := 0\<rparr>)"

text \<open>The two \<open>pre('validate')\<close> hooks of the Badge schema, in the order they are registered.\<close>

definition preValidate :: "Env \<Rightarrow> Badge \<Rightarrow> Badge" where
  "preValidate env this = normalizeCategoryInfo (setShortNameDefault env this)"

definition DUP_KEY_ERROR_CODE :: int where
  "DUP_KEY_ERROR_CODE = 11000"

text \<open>The store keeps \<open>shortname\<close> and \<open>name\<close> unique among badges.\<close>

definition violatesUnique :: "Badge list \<Rightarrow> Badge \<Rightarrow> bool" where
  "violatesUnique bs this =
     (filter (\<lambda>b. badge_id b \<noteq> badge_id this \<and>
                   (Badge.shortname b = Badge.shortname this \<or> name b = name this)) bs \<noteq> [])"

text \<open>
  Writing a badge on which claim codes were pushed. When the store has no document with this
  \<open>_id\<close>, the document is inserted as it is in memory. Otherwise the save is an update of
  the stored document: the pushed claim codes are appended to the claim codes that the store
  holds (the update pushes them, it does not replace the array), and the other fields are
  written as they are in memory. The model takes a badge to be new exactly when the store
  has no document with its \<open>_id\<close>, and the pushed codes to be the only change made to the
  claim codes in memory.
\<close>

definition writeBadge :: "Badge \<Rightarrow> ClaimCode list \<Rightarrow> Badge list \<Rightarrow> Badge list" where
  "writeBadge this pushed bs =
     (if badge_id this \<in> set (map badge_id bs)
      then map (\<lambda>b. if badge_id b = badge_id this
                    then this\<lparr>claimCodes := claimCodes b @ pushed\<rparr>
                    else b) bs
      else bs @ [this])"

text \<open>\<open>this.save(callback)\<close> on a badge whose last claim codes are \<open>pushed\<close>: the hooks
  mutate the badge in memory, then the document is written. The result is the store, the
  badge in memory, and what the callback receives.\<close>

definition saveBadge :: "Env \<Rightarrow> Store \<Rightarrow> Badge \<Rightarrow> ClaimCode list \<Rightarrow> Store \<times> Badge \<times> unit async" where
  "saveBadge env st this pushed =
     (let this' = preValidate env this in
      if violatesUnique (badges st) this' then (st, this', Failed (MongoError DUP_KEY_ERROR_CODE))
      else (st\<lparr>badges := writeBadge this' pushed (badges st)\<rparr>, this', Done ()))"

subsection \<open>Adding claim codes\<close>

definition getAllClaimCodes :: "Store \<Rightarrow> string list" where
  "getAllClaimCodes st = concat (map (\<lambda>b. map code (claimCodes b)) (badges st))"

definition inArray :: "'a list \<Rightarrow> 'a \<Rightarrow> bool" where
  "inArray array thing = (thing \<in> set array)"

text \<open>\<open>_.uniq\<close>: the first occurrence of every element, in order.\<close>

fun uniqFrom :: "'a list \<Rightarrow> 'a list \<Rightarrow> 'a list" where
  "uniqFrom seen [] = []"
| "uniqFrom seen (x # xs) =
     (if x \<in> set seen then uniqFrom seen xs else x # uniqFrom (seen @ [x]) xs)"

definition uniq :: "'a list \<Rightarrow> 'a list" where
  "uniq xs = uniqFrom [] xs"

text \<open>\<open>options.limit || Infinity\<close>: an absent limit and the limit 0 are both falsy.\<close>

datatype limit = Finite int | Infinity

definition effectiveLimit :: "int option \<Rightarrow> limit" where
  "effectiveLimit l = (case l of None \<Rightarrow> Infinity | Some n \<Rightarrow> if n = 0 then Infinity else Finite n)"

text \<open>\<open>accepted.length >= limit\<close>\<close>

definition reachedLimit :: "string list \<Rightarrow> limit \<Rightarrow> bool" where
  "reachedLimit accepted lim = (case lim of Infinity \<Rightarrow> False | Finite n \<Rightarrow> n \<le> int (length accepted))"

text \<open>The \<open>codes.forEach\<close> loop that sorts the candidates into \<open>accepted\<close> and \<open>rejected\<close>.\<close>

fun sortCodes :: "string list \<Rightarrow> limit \<Rightarrow> string list \<Rightarrow> string list \<Rightarrow> string list
    \<Rightarrow> string list \<times> string list" where
  "sortCodes existingCodes lim accepted rejected [] = (accepted, rejected)"
| "sortCodes existingCodes lim accepted rejected (c # cs) =
     (if inArray existingCodes c \<or> reachedLimit accepted lim
      then sortCodes existingCodes lim accepted (rejected @ [c]) cs
      else sortCodes existingCodes lim (accepted @ [c]) rejected cs)"

text \<open>The claim code that \<open>this.claimCodes.push({code: code, multi: ..., reservedFor: ...})\<close>
  stores: \<open>code\<close> and \<open>reservedFor\<close> go through their \<open>trim\<close> setters.\<close>

definition newClaimCode :: "bool \<Rightarrow> string option \<Rightarrow> string \<Rightarrow> ClaimCode" where
  "newClaimCode multi_opt reservedFor_opt c =
     \<lparr>code = trim c, claimedBy = None, reservedFor = map_option trim reservedFor_opt,
      multi = multi_opt\<rparr>"

text \<open>\<open>addClaimCodes(options, callback)\<close>, the options spelled out as arguments; an absent
  \<open>limit\<close> is \<open>None\<close>. The callback receives \<open>(accepted, rejected)\<close>.\<close>

definition addClaimCodes ::
  "Env \<Rightarrow> Store \<Rightarrow> Badge \<Rightarrow> string list \<Rightarrow> int option \<Rightarrow> bool \<Rightarrow> string option \<Rightarrow> bool
   \<Rightarrow> Store \<times> Badge \<times> (string list \<times> string list) async" where
  "addClaimCodes env st this codes_opt limit_opt multi_opt reservedFor_opt alreadyClean =
     (if truthy reservedFor_opt \<and> length codes_opt \<noteq> 1 then (st, this, Threw InvalidArgument)
      else
        let cs = (if alreadyClean then codes_opt else uniq codes_opt);
            lim = effectiveLimit limit_opt;
            existingCodes = getAllClaimCodes st;
            (accepted, rejected) = sortCodes existingCodes lim [] [] cs
        in if accepted = [] then (st, this, Done (accepted, rejected))
           else
             (case saveBadge env st
                     (this\<lparr>claimCodes := claimCodes this @
                                            map (newClaimCode multi_opt reservedFor_opt) accepted\<rparr>)
                     (map (newClaimCode multi_opt reservedFor_opt) accepted) of
                (st', this', Done u) \<Rightarrow> (st', this', Done (accepted, rejected))
              | (st', this', Failed e) \<Rightarrow> (st', this', Failed e)
              | (st', this', Threw e) \<Rightarrow> (st', this', Threw e)))"

subsection \<open>Generating claim codes\<close>

text \<open>
  The code generator is random: the model takes it as a function of the number of the call
  (0 for the first call of this run) and of the number of phrases asked for.
  The \<open>async.until\<close> loop has no bound, so the model is a partial function: \<open>None\<close> means
  that the callback of \<open>generateClaimCodes\<close> is never called.
\<close>

partial_function (option) generateLoop ::
  "Env \<Rightarrow> (nat \<Rightarrow> int \<Rightarrow> string list) \<Rightarrow> string option \<Rightarrow> int \<Rightarrow> nat \<Rightarrow> Store \<Rightarrow> Badge
   \<Rightarrow> string list \<Rightarrow> (Store \<times> Badge \<times> string list async) option" where
  "generateLoop env codeGenerator reservedFor_opt cnt k st this accepted =
     (if int (length accepted) = cnt then Some (st, this, Done accepted)
      else
        let numLeft = cnt - int (length accepted);
            phrases = codeGenerator k numLeft
        in case addClaimCodes env st this phrases (Some numLeft) False reservedFor_opt True of
             (st', this', Done (acceptedCodes, rejectedCodes)) \<Rightarrow>
               generateLoop env codeGenerator reservedFor_opt cnt (Suc k) st' this'
                 (accepted @ acceptedCodes)
           | (st', this', Failed e) \<Rightarrow> Some (st', this', Failed e)
           | (st', this', Threw e) \<Rightarrow> Some (st', this', Threw e))"

definition generateClaimCodes ::
  "Env \<Rightarrow> (nat \<Rightarrow> int \<Rightarrow> string list) \<Rightarrow> Store \<Rightarrow> Badge \<Rightarrow> int \<Rightarrow> string option
   \<Rightarrow> (Store \<times> Badge \<times> string list async) option" where
  "generateClaimCodes env codeGenerator st this count_opt reservedFor_opt =
     generateLoop env codeGenerator reservedFor_opt
       (if truthy reservedFor_opt then 1 else count_opt) 0 st this []"

section \<open>Behaviors and credits\<close>

text \<open>\<open>user.credit[name] >= minimum\<close> is false when the tally has no entry for the name
  (\<open>undefined >= n\<close> is false for every number \<open>n\<close>).\<close>

definition earnableBy :: "Badge \<Rightarrow> User \<Rightarrow> bool" where
  "earnableBy this usr =
     foldl (\<lambda>result v. result \<and> v) True
       (map (\<lambda>behavior.
               case credit usr (Behavior.shortname behavior) of
                 None \<Rightarrow> False
               | Some c \<Rightarrow> Behavior.count behavior \<le> c)
            (behaviors this))"

text \<open>\<open>user.credit[name] || 0\<close>: a missing entry counts as 0.\<close>

definition creditsUntilAward :: "Badge \<Rightarrow> User \<Rightarrow> (string \<rightharpoonup> int)" where
  "creditsUntilAward this usr =
     foldl (\<lambda>result behavior.
              let nm = Behavior.shortname behavior;
                  userCredits = (case credit usr nm of None \<Rightarrow> 0 | Some c \<Rightarrow> c)
              in if userCredits < Behavior.count behavior
                 then result(nm \<mapsto> Behavior.count behavior - userCredits)
                 else result)
       Map.empty (behaviors this)"

section \<open>Awarding\<close>

subsection \<open>The pattern for e-mail addresses\<close>

text \<open>
  A matcher takes a string and returns what is left of it after every way of matching a
  prefix. The combinators are those that the pattern \<open>regex.email\<close> uses: one character
  of a class, sequence, \<open>?\<close>, \<open>*\<close> and \<open>+\<close>. The pattern has no anchors, so
  \<open>test\<close> succeeds when the pattern matches somewhere in the string.
\<close>

type_synonym matcher = "string \<Rightarrow> string list"

definition oneOf :: "(char \<Rightarrow> bool) \<Rightarrow> matcher" where
  "oneOf P s = (case s of [] \<Rightarrow> [] | c # cs \<Rightarrow> if P c then [cs] else [])"

definition thenM :: "matcher \<Rightarrow> matcher \<Rightarrow> matcher" where
  "thenM p q s = concat (map q (p s))"

definition optional :: "matcher \<Rightarrow> matcher" where
  "optional p s = p s @ [s]"

text \<open>At most \<open>n\<close> repetitions; a repetition of a pattern that consumes a character
  cannot go on for more repetitions than the string has characters.\<close>

fun repeat :: "nat \<Rightarrow> matcher \<Rightarrow> matcher" where
  "repeat 0 p s = [s]"
| "repeat (Suc n) p s = concat (map (repeat n p) (p s)) @ [s]"

definition star :: "matcher \<Rightarrow> matcher" where
  "star p s = repeat (length s) p s"

definition many1 :: "matcher \<Rightarrow> matcher" where
  "many1 p = thenM p (star p)"

text \<open>\<open>[a-z0-9]\<close> and \<open>[a-z0-9!#$%&'*+\/=?\^_`{|}~\-]\<close>\<close>

definition alnum :: "char \<Rightarrow> bool" where
  "alnum c = (c \<in> set ''abcdefghijklmnopqrstuvwxyz0123456789'')"

definition atext :: "char \<Rightarrow> bool" where
  "atext c = (alnum c \<or> c \<in> set (''!#$%&*+/=?^_{|}~-'' @ [CHR 0x27, CHR 0x60]))"

text \<open>\<open>[a-z0-9](?:[a-z0-9\-]*[a-z0-9])?\<close>\<close>

definition label :: matcher where
  "label = thenM (oneOf alnum)
             (optional (thenM (star (oneOf (\<lambda>c. alnum c \<or> c = CHR ''-''))) (oneOf alnum)))"

definition regex_email :: matcher where
  "regex_email =
     thenM (many1 (oneOf atext))
       (thenM (star (thenM (oneOf (\<lambda>c. c = CHR ''.'')) (many1 (oneOf atext))))
          (thenM (oneOf (\<lambda>c. c = CHR ''@''))
             (thenM (many1 (thenM label (oneOf (\<lambda>c. c = CHR ''.'')))) label)))"

fun tails :: "string \<Rightarrow> string list" where
  "tails [] = [[]]"
| "tails (c # cs) = (c # cs) # tails cs"

definition regexTest :: "matcher \<Rightarrow> string \<Rightarrow> bool" where
  "regexTest p s = list_ex (\<lambda>t. p t \<noteq> []) (tails s)"

subsection \<open>Saving a badge instance\<close>

text \<open>The three \<open>pre('validate')\<close> hooks of the BadgeInstance schema. \<open>assertionDefault\<close>
  looks the badge up by \<open>shortname\<close> and calls \<open>makeAssertion\<close> on what it finds without
  testing it: when no badge is found, that call raises a TypeError inside the callback.
  The assignment \<open>this.assertion = assertion\<close> goes through the \<open>trim\<close> setter.\<close>

definition assertionDefault :: "Env \<Rightarrow> Store \<Rightarrow> BadgeInstance \<Rightarrow> BadgeInstance async" where
  "assertionDefault env st this =
     (if truthy (assertion this) then Done this
      else
        (case find (\<lambda>b. Badge.shortname b = badge this) (badges st) of
           None \<Rightarrow> Threw TypeError
         | Some b \<Rightarrow>
             (case makeAssertion env b (user this) of
                Inl e \<Rightarrow> Failed e
              | Inr a \<Rightarrow> Done (this\<lparr>assertion := Some (trim a)\<rparr>))))"

definition hashDefault :: "Env \<Rightarrow> BadgeInstance \<Rightarrow> BadgeInstance" where
  "hashDefault env this =
     (if truthy (hash this) then this
      else this\<lparr>hash := Some (util_hash env (case assertion this of None \<Rightarrow> [] | Some a \<Rightarrow> a))\<rparr>)"

definition userBadgeKeyDefault :: "BadgeInstance \<Rightarrow> BadgeInstance" where
  "userBadgeKeyDefault this =
     (if truthy (userBadgeKey this) then this
      else this\<lparr>userBadgeKey := Some (user this @ ''.'' @ badge this)\<rparr>)"

text \<open>The validators of the schema, which run after the hooks: \<open>user\<close>, \<open>assertion\<close>,
  \<open>hash\<close> and \<open>userBadgeKey\<close> are required (a required string is not empty), and
  \<open>user\<close> matches \<open>regex.email\<close>. (\<open>issuedOn\<close> and \<open>seen\<close> have defaults.)\<close>

definition validInstance :: "BadgeInstance \<Rightarrow> bool" where
  "validInstance this =
     (user this \<noteq> [] \<and> regexTest regex_email (user this) \<and> truthy (assertion this) \<and>
      truthy (hash this) \<and> truthy (userBadgeKey this))"

text \<open>\<open>instance.save(callback)\<close> on a new instance: the hooks, the validators, then the
  insertion, which the unique index on \<open>userBadgeKey\<close> refuses with the duplicate-key
  error.\<close>

definition saveInstance :: "Env \<Rightarrow> Store \<Rightarrow> BadgeInstance \<Rightarrow> (Store \<times> BadgeInstance) async" where
  "saveInstance env st this =
     (case assertionDefault env st this of
        Threw e \<Rightarrow> Threw e
      | Failed e \<Rightarrow> Failed e
      | Done i1 \<Rightarrow>
          (let i3 = userBadgeKeyDefault (hashDefault env i1) in
           if \<not> validInstance i3 then Failed ValidationError
           else if userBadgeKey i3 \<in> set (map userBadgeKey (instances st))
           then Failed (MongoError DUP_KEY_ERROR_CODE)
           else Done (st\<lparr>instances := instances st @ [i3]\<rparr>, i3)))"

definition userHasBadge :: "Store \<Rightarrow> string \<Rightarrow> string \<Rightarrow> bool" where
  "userHasBadge st usr sn =
     (find (\<lambda>i. userBadgeKey i = Some (usr @ ''.'' @ sn)) (instances st) \<noteq> None)"

subsection \<open>The category cascade\<close>

text \<open>Modelled from the spec: \<open>BadgeInstance.findByCategory\<close> is called by \<open>award\<close> and is
  not defined in the sources. The spec says that the score is taken "across all owned badges
  tagging that category": the instances of the user whose badge, looked up by \<open>_id\<close>, lists
  the category; each comes with its badge (\<open>inst.badge\<close> is the badge document).\<close>

definition findByCategory :: "Store \<Rightarrow> string \<Rightarrow> string \<Rightarrow> (BadgeInstance \<times> Badge) list" where
  "findByCategory st email category =
     List.map_filter
       (\<lambda>i. if user i = email
            then (case find (\<lambda>b. badge_id b = badge i) (badges st) of
                    None \<Rightarrow> None
                  | Some b \<Rightarrow> if category \<in> set (categories b) then Some (i, b) else None)
            else None)
       (instances st)"

definition getCategoryBadges :: "Store \<Rightarrow> string \<Rightarrow> Badge list" where
  "getCategoryBadges st category = filter (\<lambda>b. categoryAward b = Some category) (badges st)"

definition categoryScore :: "Store \<Rightarrow> string \<Rightarrow> string \<Rightarrow> int" where
  "categoryScore st email category =
     foldl (\<lambda>sum inst. sum + categoryWeight (snd inst)) 0 (findByCategory st email category)"

definition filterByScore :: "Store \<Rightarrow> string \<Rightarrow> string \<Rightarrow> Badge list \<Rightarrow> Badge list" where
  "filterByScore st email category bs =
     (let score = categoryScore st email category
      in filter (\<lambda>b. categoryRequirement b \<le> score) bs)"

text \<open>Modelled from the spec: \<open>util.negate\<close> and \<open>util.method\<close> (lib/util.js) are not in
  the sources. The spec says that a capstone is awarded when the user "does not already hold"
  it, and that it is awarded "recursively": \<open>util.negate(f)\<close> calls back with the negation
  of what \<open>f\<close> calls back with, and \<open>util.method('award', newOpts)\<close> calls \<open>award(newOpts,
  callback)\<close> on the badge it is given.\<close>

definition filterByOwned :: "Store \<Rightarrow> string \<Rightarrow> Badge list \<Rightarrow> Badge list" where
  "filterByOwned st email bs = filter (\<lambda>b. \<not> userHasBadge st email (Badge.shortname b)) bs"

text \<open>The badges that the waterfall of one category hands to \<open>awardBadges\<close>.\<close>

definition cascadeTargets :: "Store \<Rightarrow> string \<Rightarrow> string \<Rightarrow> Badge list" where
  "cascadeTargets st email category =
     filterByOwned st email (filterByScore st email category (getCategoryBadges st category))"

text \<open>The values a callback can receive from \<open>award\<close>, and what a call of \<open>award\<close> does:
  it calls back with a list of arguments, or an exception escapes.\<close>

datatype jsval =
  Null | Undefined | ErrorV error | InstanceV BadgeInstance | ArrayV "jsval list"

datatype outcome = Callback "jsval list" | Uncaught error

definition cbArg :: "jsval list \<Rightarrow> nat \<Rightarrow> jsval" where
  "cbArg args i = (if i < length args then args ! i else Undefined)"

definition cbError :: "jsval list \<Rightarrow> error option" where
  "cbError args = (case cbArg args 0 of ErrorV e \<Rightarrow> Some e | _ \<Rightarrow> None)"

text \<open>
  \<open>async.map\<close> calls the iterator on every element and collects the second argument of each
  callback; the first error is what the final callback receives, and the other calls still
  run. The calls are modelled one after the other, in the order of the list. An exception
  ends everything.
\<close>

fun asyncMap :: "(Store \<Rightarrow> 'a \<Rightarrow> (Store \<times> outcome) option) \<Rightarrow> Store \<Rightarrow> 'a list
    \<Rightarrow> (Store \<times> jsval list async) option" where
  "asyncMap iterator st [] = Some (st, Done [])"
| "asyncMap iterator st (x # xs) =
     (case iterator st x of
        None \<Rightarrow> None
      | Some (st1, Uncaught e) \<Rightarrow> Some (st1, Threw e)
      | Some (st1, Callback args) \<Rightarrow>
          (case asyncMap iterator st1 xs of
             None \<Rightarrow> None
           | Some (st2, Threw e) \<Rightarrow> Some (st2, Threw e)
           | Some (st2, Failed e) \<Rightarrow>
               Some (st2, Failed (case cbError args of Some e0 \<Rightarrow> e0 | None \<Rightarrow> e))
           | Some (st2, Done vs) \<Rightarrow>
               (case cbError args of
                  Some e0 \<Rightarrow> Some (st2, Failed e0)
                | None \<Rightarrow> Some (st2, Done (cbArg args 1 # vs)))))"

text \<open>\<open>async.concatSeries\<close>: one element after the other, the results concatenated; the
  first error ends the series.\<close>

fun concatSeries :: "(Store \<Rightarrow> 'a \<Rightarrow> (Store \<times> jsval list async) option) \<Rightarrow> Store \<Rightarrow> 'a list
    \<Rightarrow> (Store \<times> jsval list async) option" where
  "concatSeries iterator st [] = Some (st, Done [])"
| "concatSeries iterator st (x # xs) =
     (case iterator st x of
        None \<Rightarrow> None
      | Some (st1, Threw e) \<Rightarrow> Some (st1, Threw e)
      | Some (st1, Failed e) \<Rightarrow> Some (st1, Failed e)
      | Some (st1, Done ys) \<Rightarrow>
          (case concatSeries iterator st1 xs of
             None \<Rightarrow> None
           | Some (st2, Threw e) \<Rightarrow> Some (st2, Threw e)
           | Some (st2, Failed e) \<Rightarrow> Some (st2, Failed e)
           | Some (st2, Done zs) \<Rightarrow> Some (st2, Done (ys @ zs))))"

subsection \<open>award\<close>

text \<open>The line that \<open>award\<close> writes where the email is to be sent.\<close>

definition EMAIL_LINE :: string where
  "EMAIL_LINE = ''WRITE SEND EMAIL CODE''"

text \<open>\<open>new BadgeInstance({user: email, badge: this.id})\<close>: \<open>user\<close> goes through its
  \<open>trim\<close> setter, and the other fields are not set before the hooks run.\<close>

definition newInstance :: "string \<Rightarrow> string \<Rightarrow> BadgeInstance" where
  "newInstance email bid =
     \<lparr>user = trim email, badge = bid, assertion = None, hash = None, userBadgeKey = None\<rparr>"

text \<open>
  \<open>award(options, callback)\<close> with \<open>options = {user: email, sendEmail: sendEmail}\<close> (a
  string for \<open>options\<close> is \<open>sendEmail = False\<close>). \<open>award\<close> calls itself on the badges of the
  cascade; the first argument bounds the depth of these calls, and \<open>None\<close> means that the
  bound was too small.
\<close>

fun award_fuel :: "nat \<Rightarrow> Env \<Rightarrow> Store \<Rightarrow> Badge \<Rightarrow> string \<Rightarrow> bool \<Rightarrow> (Store \<times> outcome) option" where
  "award_fuel 0 env st this email sendEmail = None"
| "award_fuel (Suc n) env st this email sendEmail =
     (let checkForCategoryBadges = (\<not> truthy (categoryAward this) \<and> categoryWeight this \<noteq> 0);
          inst = newInstance email (badge_id this)
      in case saveInstance env st inst of
           Threw e \<Rightarrow> Some (st, Uncaught e)
         | Failed e \<Rightarrow>
             (if e = MongoError DUP_KEY_ERROR_CODE then Some (st, Callback [])
              else Some (st, Callback [ErrorV e]))
         | Done (st1, inst1) \<Rightarrow>
             (let st2 = (if sendEmail
                         then st1\<lparr>console := console st1 @ [EMAIL_LINE]\<rparr>
                         else st1)
              in if \<not> checkForCategoryBadges
                 then Some (st2, Callback [Null, InstanceV inst1, ArrayV []])
                 else
                   (case concatSeries
                           (\<lambda>s category.
                              asyncMap (\<lambda>s' b. award_fuel n env s' b email True) s
                                (cascadeTargets s email category))
                           st2 (categories this) of
                      None \<Rightarrow> None
                    | Some (st3, Threw e) \<Rightarrow> Some (st3, Uncaught e)
                    | Some (st3, Failed e) \<Rightarrow> Some (st3, Callback [ErrorV e])
                    | Some (st3, Done insts) \<Rightarrow>
                        Some (st3, Callback [Null, ArrayV insts, ArrayV insts]))))"

section \<open>Invariants and conventions of the store\<close>



text \<open>
  A condition on the stored badges under which \<open>award\<close> and the hooks of BadgeInstance
  agree: \<open>award\<close> stores the \<open>_id\<close> of the badge in the instance, while
  \<open>assertionDefault\<close> and \<open>userHasBadge\<close> look that value up as a \<open>shortname\<close>. The
  condition says that every badge has its \<open>shortname\<close> as \<open>_id\<close>, that the ids are unique,
  and that weights are not negative. The schema does not establish it (the default \<open>_id\<close>
  is a generated one).
\<close>

definition badgesConvention :: "Badge list \<Rightarrow> bool" where
  "badgesConvention bs =
     (list_all (\<lambda>b. badge_id b = Badge.shortname b) bs \<and> distinct (map badge_id bs) \<and>
      list_all (\<lambda>b. 0 \<le> categoryWeight b) bs)"

text \<open>The recipient passes the validators of \<open>user\<close> once trimmed.\<close>

definition validUser :: "string \<Rightarrow> bool" where
  "validUser email = (trim email \<noteq> [] \<and> regexTest regex_email (trim email))"

text \<open>\<open>makeAssertion\<close> does not fail for this recipient on the stored badges, and what
  it returns passes the validators of \<open>assertion\<close> and \<open>hash\<close>.\<close>

definition assertionsSucceed :: "Env \<Rightarrow> string \<Rightarrow> Badge list \<Rightarrow> bool" where
  "assertionsSucceed env email bs =
     list_all (\<lambda>b. case makeAssertion env b (trim email) of
                     Inl e \<Rightarrow> False
                   | Inr a \<Rightarrow> trim a \<noteq> [] \<and> util_hash env (trim a) \<noteq> []) bs"

text \<open>The instance that a successful save of a new instance of badge \<open>b\<close> for \<open>email\<close>
  stores.\<close>

definition issuedInstance :: "Env \<Rightarrow> Badge \<Rightarrow> string \<Rightarrow> BadgeInstance" where
  "issuedInstance env b email =
     (let a = (case makeAssertion env b (trim email) of Inl e \<Rightarrow> [] | Inr a \<Rightarrow> trim a)
      in \<lparr>user = trim email, badge = badge_id b, assertion = Some a,
          hash = Some (util_hash env a),
          userBadgeKey = Some (trim email @ ''.'' @ badge_id b)\<rparr>)"

section \<open>Example data\<close>

text \<open>Concrete documents on which the theorems below are instantiated.\<close>

definition example_env :: Env where
  "example_env = \<lparr>util_slugify = (\<lambda>s. s), util_hash = (\<lambda>s. s),
                   makeAssertion = (\<lambda>b recipient. Inr (Badge.shortname b @ '' for '' @ recipient))\<rparr>"

definition plain_badge :: Badge where
  "plain_badge = \<lparr>badge_id = ''p'', shortname = ''p'', name = ''Plain'', categoryAward = None,
     categoryRequirement = 0, categoryWeight = 0, categories = [], behaviors = [], claimCodes = []\<rparr>"

definition coded_badge :: Badge where
  "coded_badge = plain_badge\<lparr>claimCodes :=
     [\<lparr>code = ''my-code'', claimedBy = Some ''alice'', reservedFor = None, multi = False\<rparr>,
      \<lparr>code = ''open-code'', claimedBy = None, reservedFor = None, multi = False\<rparr>]\<rparr>"

definition zero_behavior_badge :: Badge where
  "zero_behavior_badge = plain_badge\<lparr>behaviors := [\<lparr>Behavior.shortname = ''x'', count = 0\<rparr>]\<rparr>"

definition mixed_badge :: Badge where
  "mixed_badge = plain_badge\<lparr>categoryAward := Some ''X'', categoryRequirement := 5,
     categoryWeight := 3, categories := [''Y'']\<rparr>"

definition empty_store :: Store where
  "empty_store = \<lparr>badges = [], instances = [], console = []\<rparr>"

definition contributor_badge :: Badge where
  "contributor_badge = \<lparr>badge_id = ''a'', shortname = ''a'', name = ''A'', categoryAward = None,
     categoryRequirement = 0, categoryWeight = 5, categories = [''X''], behaviors = [],
     claimCodes = []\<rparr>"

definition capstone_badge :: Badge where
  "capstone_badge = \<lparr>badge_id = ''b'', shortname = ''b'', name = ''B'',
     categoryAward = Some ''X'', categoryRequirement = 5, categoryWeight = 0, categories = [],
     behaviors = [], claimCodes = []\<rparr>"

definition category_store :: Store where
  "category_store = \<lparr>badges = [contributor_badge, capstone_badge], instances = [], console = []\<rparr>"

definition awarded_store :: Store where
  "awarded_store =
     category_store\<lparr>instances := [issuedInstance example_env contributor_badge ''u@example.org'',
                                     issuedInstance example_env capstone_badge ''u@example.org''],
                    console := [EMAIL_LINE]\<rparr>"

text \<open>The same two badges with an \<open>_id\<close> as the schema generates it by default, which
  is not the \<open>shortname\<close> of any badge.\<close>

definition generated_contributor :: Badge where
  "generated_contributor = contributor_badge\<lparr>badge_id := ''5163a9f2e4b0c8d1''\<rparr>"

definition generated_capstone :: Badge where
  "generated_capstone = capstone_badge\<lparr>badge_id := ''5163a9f2e4b0c8d2''\<rparr>"

definition generated_store :: Store where
  "generated_store =
     \<lparr>badges = [generated_contributor, generated_capstone], instances = [], console = []\<rparr>"

text \<open>A store in which the code \<open>taken\<close> is in use, code generators, and the badge and
  the store after the code \<open>fresh\<close> was added to \<open>plain_badge\<close>.\<close>

definition taken_badge :: Badge where
  "taken_badge = plain_badge\<lparr>badge_id := ''t'', Badge.shortname := ''t'', name := ''Taken'',
     claimCodes := [\<lparr>code = ''taken'', claimedBy = None, reservedFor = None, multi = False\<rparr>]\<rparr>"

definition taken_store :: Store where
  "taken_store = \<lparr>badges = [taken_badge], instances = [], console = []\<rparr>"


definition retry_generator :: "nat \<Rightarrow> int \<Rightarrow> string list" where
  "retry_generator k n = (if k < 3 then [''taken''] else [''fresh''])"

text \<open>Generators that hand out a phrase with white space at its start in every round, and
  the same phrase twice in one batch.\<close>

definition padded_generator :: "nat \<Rightarrow> int \<Rightarrow> string list" where
  "padded_generator k n = ['' x'']"

definition double_generator :: "nat \<Rightarrow> int \<Rightarrow> string list" where
  "double_generator k n = [''a'', ''a'']"

definition fresh_badge :: Badge where
  "fresh_badge = plain_badge\<lparr>claimCodes :=
     [\<lparr>code = ''fresh'', claimedBy = None, reservedFor = None, multi = False\<rparr>]\<rparr>"

definition fresh_store :: Store where
  "fresh_store = \<lparr>badges = [taken_badge, fresh_badge], instances = [], console = []\<rparr>"

section \<open>Properties of the claim-code lookup\<close>

lemma getClaimCodeLoop_Some:
  "getClaimCodeLoop cs n k = Some i \<Longrightarrow> i < k \<and> code (cs ! i) = n"
  by (induction k) (auto split: if_splits simp: less_Suc_eq)

lemma getClaimCodeLoop_cong:
  "k \<le> length cs \<Longrightarrow> map code cs' = map code cs \<Longrightarrow>
   getClaimCodeLoop cs' n k = getClaimCodeLoop cs n k"
proof (induction k)
  case 0
  show ?case by simp
next
  case (Suc k)
  from Suc.prems have len: "length cs' = length cs"
    using map_eq_imp_length_eq by blast
  from Suc.prems have "k < length cs" by simp
  with Suc.prems len have "code (cs' ! k) = code (cs ! k)"
    by (metis nth_map)
  with Suc show ?case by simp
qed

lemma map_code_update:
  "i < length cs \<Longrightarrow> code c' = code (cs ! i) \<Longrightarrow> map code (cs[i := c']) = map code cs"
  by (simp add: map_update list_update_same_conv)

lemma getClaimCodeIndex_bound:
  "getClaimCodeIndex this c = Some i \<Longrightarrow>
   i < length (claimCodes this) \<and> code (claimCodes this ! i) = normalizeCode c"
  unfolding getClaimCodeIndex_def by (drule getClaimCodeLoop_Some) simp

lemma getClaimCodeIndex_update:
  assumes "getClaimCodeIndex this c = Some i"
    and "code c' = code (claimCodes this ! i)"
  shows "getClaimCodeIndex (this\<lparr>claimCodes := (claimCodes this)[i := c']\<rparr>) c = Some i"
proof -
  from assms(1) have i: "i < length (claimCodes this)"
    by (simp add: getClaimCodeIndex_bound)
  have "map code ((claimCodes this)[i := c']) = map code (claimCodes this)"
    using i assms(2) by (rule map_code_update)
  then have "getClaimCodeLoop ((claimCodes this)[i := c']) (normalizeCode c) (length (claimCodes this))
             = getClaimCodeLoop (claimCodes this) (normalizeCode c) (length (claimCodes this))"
    by (intro getClaimCodeLoop_cong) simp_all
  with assms(1) show ?thesis
    by (simp add: getClaimCodeIndex_def)
qed

lemma normalize_my_code: "normalizeCode ''My Code'' = ''my-code''"
  by (simp add: normalizeCode_def trim_def isSpace_def toLowerCase_char_def upperCase_def
      lowerCase_def)

lemma normalize_missing: "normalizeCode ''missing'' = ''missing''"
  by (simp add: normalizeCode_def trim_def isSpace_def toLowerCase_char_def upperCase_def
      lowerCase_def)

lemma getClaimCode_coded_missing: "getClaimCode coded_badge ''missing'' = None"
  by (simp add: getClaimCode_def getClaimCodeIndex_def coded_badge_def plain_badge_def
      normalize_missing)

lemma getClaimCode_coded_my_code:
  "getClaimCode coded_badge ''My Code'' =
     Some \<lparr>code = ''my-code'', claimedBy = Some ''alice'', reservedFor = None, multi = False\<rparr>"
  by (simp add: getClaimCode_def getClaimCodeIndex_def coded_badge_def plain_badge_def
      normalize_my_code)

section \<open>Redeeming and releasing\<close>

lemma normalize_open_code: "normalizeCode ''open-code'' = ''open-code''"
  by (simp add: normalizeCode_def trim_def isSpace_def toLowerCase_char_def upperCase_def
      lowerCase_def)

lemma trim_padded_bob: "trim '' bob '' = ''bob''"
  by (simp add: trim_def isSpace_def)

lemma trim_alice: "trim ''alice'' = ''alice''"
  by (simp add: trim_def isSpace_def)

text \<open>
  C4, as claimed, fails for a user written with white space at its ends. On a badge whose
  code \<open>open-code\<close> is single-use and unclaimed, redeeming it for \<open>' bob '\<close> returns
  \<open>true\<close> and stores \<open>claimedBy = 'bob'\<close> (the setter of the field trims), which is not
  the user that was given; redeeming it again for \<open>' bob '\<close> compares \<open>'bob'\<close> with
  \<open>' bob '\<close> and returns \<open>false\<close>.
\<close>

theorem redeemClaimCode_padded_user:
  "snd (redeemClaimCode coded_badge ''open-code'' '' bob '') = Some True \<and>
   getClaimCode (fst (redeemClaimCode coded_badge ''open-code'' '' bob '')) ''open-code''
     = Some \<lparr>code = ''open-code'', claimedBy = Some ''bob'', reservedFor = None, multi = False\<rparr> \<and>
   snd (redeemClaimCode (fst (redeemClaimCode coded_badge ''open-code'' '' bob ''))
          ''open-code'' '' bob '') = Some False"
  by (simp add: redeemClaimCode_def getClaimCode_def getClaimCodeIndex_def coded_badge_def
      plain_badge_def normalize_open_code trim_padded_bob truthy_def Let_def)

text \<open>
  C4, amended. \<open>redeemClaimCode(c, u)\<close> returns \<open>null\<close> when no stored code matches the
  normalisation of \<open>c\<close>. When the matching code is single-use and claimed by another user,
  it returns \<open>false\<close> and the badge is unchanged. In every other case it returns \<open>true\<close>
  and the matching code has \<open>claimedBy\<close> = \<open>u\<close> without the white space at its ends
  afterwards. Redeeming again for the same \<open>u\<close> changes nothing more; it returns \<open>true\<close>
  when the code is multi-use or \<open>u\<close> has no white space at its ends (or is nothing but
  white space), and \<open>false\<close> otherwise.
\<close>

theorem redeemClaimCode_amended:
  "(getClaimCode this c = None \<longrightarrow> redeemClaimCode this c u = (this, None)) \<and>
   (\<forall>claim. getClaimCode this c = Some claim \<and>
        \<not> multi claim \<and> truthy (claimedBy claim) \<and> claimedBy claim \<noteq> Some u \<longrightarrow>
      redeemClaimCode this c u = (this, Some False)) \<and>
   (\<forall>claim. getClaimCode this c = Some claim \<and>
        \<not> (\<not> multi claim \<and> truthy (claimedBy claim) \<and> claimedBy claim \<noteq> Some u) \<longrightarrow>
      snd (redeemClaimCode this c u) = Some True \<and>
      getClaimCode (fst (redeemClaimCode this c u)) c = Some (claim\<lparr>claimedBy := Some (trim u)\<rparr>) \<and>
      redeemClaimCode (fst (redeemClaimCode this c u)) c u
        = (fst (redeemClaimCode this c u), Some (multi claim \<or> trim u = [] \<or> trim u = u)))"
proof (cases "getClaimCodeIndex this c")
  case None
  then show ?thesis
    by (simp add: redeemClaimCode_def getClaimCode_def)
next
  case (Some i)
  let ?claim = "claimCodes this ! i"
  let ?claim' = "?claim\<lparr>claimedBy := Some (trim u)\<rparr>"
  let ?this' = "this\<lparr>claimCodes := (claimCodes this)[i := ?claim']\<rparr>"
  have i: "i < length (claimCodes this)"
    using Some by (simp add: getClaimCodeIndex_bound)
  have get: "getClaimCode this c = Some ?claim"
    using Some by (simp add: getClaimCode_def)
  have idx': "getClaimCodeIndex ?this' c = Some i"
    using Some by (rule getClaimCodeIndex_update) simp
  have upd: "claimCodes ?this' ! i = ?claim'"
    using i by simp
  have same: "?this'\<lparr>claimCodes := (claimCodes ?this')[i := ?claim'\<lparr>claimedBy := Some (trim u)\<rparr>]\<rparr>
              = ?this'"
    by simp
  have again: "redeemClaimCode ?this' c u
               = (?this', Some (multi ?claim \<or> trim u = [] \<or> trim u = u))"
  proof (cases "multi ?claim \<or> trim u = [] \<or> trim u = u")
    case True
    then have "\<not> (\<not> multi ?claim' \<and> truthy (claimedBy ?claim') \<and> claimedBy ?claim' \<noteq> Some u)"
      by (auto simp add: truthy_def)
    then have "redeemClaimCode ?this' c u
               = (?this'\<lparr>claimCodes := (claimCodes ?this')[i := ?claim'\<lparr>claimedBy := Some (trim u)\<rparr>]\<rparr>,
                  Some True)"
      unfolding redeemClaimCode_def using idx' upd by (simp add: Let_def)
    with same True show ?thesis by simp
  next
    case False
    then have "\<not> multi ?claim' \<and> truthy (claimedBy ?claim') \<and> claimedBy ?claim' \<noteq> Some u"
      by (simp add: truthy_def)
    then have "redeemClaimCode ?this' c u = (?this', Some False)"
      unfolding redeemClaimCode_def using idx' upd by (simp add: Let_def)
    with False show ?thesis by simp
  qed
  have get': "getClaimCode ?this' c = Some ?claim'"
    using idx' i by (simp add: getClaimCode_def)
  show ?thesis
  proof (cases "\<not> multi ?claim \<and> truthy (claimedBy ?claim) \<and> claimedBy ?claim \<noteq> Some u")
    case True
    then have "redeemClaimCode this c u = (this, Some False)"
      using Some by (simp add: redeemClaimCode_def Let_def)
    with True get show ?thesis by simp
  next
    case False
    then have "redeemClaimCode this c u = (?this', Some True)"
      using Some by (auto simp add: redeemClaimCode_def Let_def)
    with False get again get' show ?thesis by auto
  qed
qed

theorem redeemClaimCode_amended_witness:
  "redeemClaimCode coded_badge ''missing'' ''bob'' = (coded_badge, None) \<and>
   redeemClaimCode coded_badge ''My Code'' ''bob'' = (coded_badge, Some False) \<and>
   snd (redeemClaimCode coded_badge ''My Code'' ''alice'') = Some True \<and>
   getClaimCode (fst (redeemClaimCode coded_badge ''My Code'' ''alice'')) ''My Code''
     = Some \<lparr>code = ''my-code'', claimedBy = Some ''alice'', reservedFor = None, multi = False\<rparr> \<and>
   redeemClaimCode (fst (redeemClaimCode coded_badge ''My Code'' ''alice'')) ''My Code'' ''alice''
     = (fst (redeemClaimCode coded_badge ''My Code'' ''alice''), Some True)"
  using redeemClaimCode_amended [of coded_badge "''missing''" "''bob''"]
    redeemClaimCode_amended [of coded_badge "''My Code''" "''bob''"]
    redeemClaimCode_amended [of coded_badge "''My Code''" "''alice''"]
    getClaimCode_coded_missing getClaimCode_coded_my_code trim_alice
  by (simp add: truthy_def)

text \<open>
  C10. \<open>releaseClaimCode(code)\<close> needs a stored code that matches the normalisation of its
  argument: then it sets \<open>claimedBy\<close> of that code to \<open>null\<close> and returns \<open>true\<close>. Without
  a match it dereferences the \<open>null\<close> that \<open>getClaimCode\<close> returned and raises a TypeError.
\<close>

theorem releaseClaimCode_spec:
  "(getClaimCode this c = None \<longrightarrow> releaseClaimCode this c = Inl TypeError) \<and>
   (\<forall>claim. getClaimCode this c = Some claim \<longrightarrow>
      (\<exists>this'. releaseClaimCode this c = Inr (this', True) \<and>
               getClaimCode this' c = Some (claim\<lparr>claimedBy := None\<rparr>)))"
proof (cases "getClaimCodeIndex this c")
  case None
  then show ?thesis
    by (simp add: releaseClaimCode_def getClaimCode_def)
next
  case (Some i)
  let ?this' = "this\<lparr>claimCodes := (claimCodes this)[i := (claimCodes this ! i)\<lparr>claimedBy := None\<rparr>]\<rparr>"
  have i: "i < length (claimCodes this)"
    using Some by (simp add: getClaimCodeIndex_bound)
  have "getClaimCodeIndex ?this' c = Some i"
    using Some by (rule getClaimCodeIndex_update) simp
  then have "getClaimCode ?this' c = Some ((claimCodes this ! i)\<lparr>claimedBy := None\<rparr>)"
    using i by (simp add: getClaimCode_def)
  moreover have "releaseClaimCode this c = Inr (?this', True)"
    using Some by (simp add: releaseClaimCode_def)
  ultimately show ?thesis
    using Some by (simp add: getClaimCode_def)
qed

theorem releaseClaimCode_spec_witness:
  "releaseClaimCode coded_badge ''missing'' = Inl TypeError \<and>
   (\<exists>this'. releaseClaimCode coded_badge ''My Code'' = Inr (this', True) \<and>
       getClaimCode this' ''My Code'' =
         Some \<lparr>code = ''my-code'', claimedBy = None, reservedFor = None, multi = False\<rparr>)"
  using releaseClaimCode_spec [of coded_badge "''missing''"]
    releaseClaimCode_spec [of coded_badge "''My Code''"]
    getClaimCode_coded_missing getClaimCode_coded_my_code
  by simp

section \<open>Adding claim codes\<close>

text \<open>
  C7. When \<open>reservedFor\<close> is given (a non-empty string) and the number of codes is not
  exactly one, \<open>addClaimCodes\<close> throws its invalid-argument error, and neither the badge nor
  the store changes: no code is added.
\<close>

theorem addClaimCodes_reservedFor_invalid:
  "truthy reservedFor_opt \<Longrightarrow> length codes_opt \<noteq> 1 \<Longrightarrow>
   addClaimCodes env st this codes_opt limit_opt multi_opt reservedFor_opt alreadyClean
     = (st, this, Threw InvalidArgument)"
  by (simp add: addClaimCodes_def)

theorem addClaimCodes_reservedFor_invalid_witness:
  "truthy (Some ''u@example.org'') \<and> length [''a'', ''b''] \<noteq> 1 \<and>
   addClaimCodes example_env empty_store plain_badge [''a'', ''b''] None False
       (Some ''u@example.org'') False
     = (empty_store, plain_badge, Threw InvalidArgument)"
proof -
  have t: "truthy (Some ''u@example.org'')" by (simp add: truthy_def)
  have l: "length [''a'', ''b''] \<noteq> 1" by simp
  show ?thesis
    using t l addClaimCodes_reservedFor_invalid [OF t l] by simp
qed



text \<open>
  C1. With no claim code in the store, \<open>addClaimCodes\<close> with \<open>codes = ["a"]\<close> and
  \<open>limit = 0\<close> should accept nothing and reject \<open>"a"\<close>. The code computes the limit as
  \<open>options.limit || Infinity\<close>, so the limit 0 is read as no limit: the call accepts \<open>"a"\<close>
  and rejects nothing.
\<close>

theorem addClaimCodes_limit_zero:
  "getAllClaimCodes empty_store = [] \<and>
   snd (snd (addClaimCodes example_env empty_store plain_badge [''a''] (Some 0) False None False))
     = Done ([''a''], [])"
  by (simp add: addClaimCodes_def getAllClaimCodes_def empty_store_def plain_badge_def
      truthy_def uniq_def effectiveLimit_def inArray_def reachedLimit_def saveBadge_def
      violatesUnique_def Let_def)

section \<open>Validation\<close>

text \<open>
  C8. After the validation hooks, a badge whose \<open>categoryAward\<close> is set (a non-empty
  string) has \<open>categoryWeight = 0\<close> and no categories, and a badge whose \<open>categoryAward\<close> is
  not set has \<open>categoryRequirement = 0\<close>; so no validated badge has both a nonzero weight
  and a nonzero requirement.
\<close>

theorem preValidate_exclusive:
  "(truthy (categoryAward (preValidate env this)) \<longrightarrow>
      categoryWeight (preValidate env this) = 0 \<and> categories (preValidate env this) = []) \<and>
   (\<not> truthy (categoryAward (preValidate env this)) \<longrightarrow>
      categoryRequirement (preValidate env this) = 0) \<and>
   \<not> (categoryWeight (preValidate env this) \<noteq> 0 \<and> categoryRequirement (preValidate env this) \<noteq> 0)"
  by (simp add: preValidate_def normalizeCategoryInfo_def setShortNameDefault_def)

theorem preValidate_exclusive_witness:
  "truthy (categoryAward (preValidate example_env mixed_badge)) \<and>
   categoryWeight (preValidate example_env mixed_badge) = 0 \<and>
   categories (preValidate example_env mixed_badge) = [] \<and>
   \<not> truthy (categoryAward (preValidate example_env plain_badge)) \<and>
   categoryRequirement (preValidate example_env plain_badge) = 0"
  using preValidate_exclusive [of example_env mixed_badge]
    preValidate_exclusive [of example_env plain_badge]
  by (simp add: preValidate_def normalizeCategoryInfo_def setShortNameDefault_def
      mixed_badge_def plain_badge_def truthy_def)

section \<open>Behaviors and credits\<close>

text \<open>The two methods agree whenever every behavior that the tally lacks requires a
  positive number of credits.\<close>

lemma creditsUntilAward_fold_dom:
  "dom m \<subseteq> dom (foldl (\<lambda>result behavior.
              let nm = Behavior.shortname behavior;
                  userCredits = (case credit usr nm of None \<Rightarrow> 0 | Some c \<Rightarrow> c)
              in if userCredits < Behavior.count behavior
                 then result(nm \<mapsto> Behavior.count behavior - userCredits)
                 else result) m bs)"
  (is "_ \<subseteq> dom (foldl ?f m bs)")
proof (induction bs arbitrary: m)
  case Nil
  show ?case by simp
next
  case (Cons b bs)
  have "dom m \<subseteq> dom (?f m b)" by (auto simp: Let_def)
  also have "\<dots> \<subseteq> dom (foldl ?f (?f m b) bs)" by (rule Cons.IH)
  finally show ?case by simp
qed

lemma creditsUntilAward_empty_iff:
  "creditsUntilAward this usr = Map.empty \<longleftrightarrow>
     (\<forall>b\<in>set (behaviors this).
        \<not> (case credit usr (Behavior.shortname b) of None \<Rightarrow> 0 | Some c \<Rightarrow> c) < Behavior.count b)"
proof -
  let ?f = "\<lambda>result behavior.
              let nm = Behavior.shortname behavior;
                  userCredits = (case credit usr nm of None \<Rightarrow> 0 | Some c \<Rightarrow> c)
              in if userCredits < Behavior.count behavior
                 then result(nm \<mapsto> Behavior.count behavior - userCredits)
                 else result"
  have "foldl ?f m bs = Map.empty \<longleftrightarrow>
          m = Map.empty \<and> (\<forall>b\<in>set bs.
             \<not> (case credit usr (Behavior.shortname b) of None \<Rightarrow> 0 | Some c \<Rightarrow> c) < Behavior.count b)"
    for m :: "string \<rightharpoonup> int" and bs
  proof (induction bs arbitrary: m)
    case Nil
    show ?case by simp
  next
    case (Cons b bs)
    let ?u = "case credit usr (Behavior.shortname b) of None \<Rightarrow> 0 | Some c \<Rightarrow> c"
    show ?case
    proof (cases "?u < Behavior.count b")
      case True
      let ?m' = "m(Behavior.shortname b \<mapsto> Behavior.count b - ?u)"
      have "dom ?m' \<subseteq> dom (foldl ?f ?m' bs)" by (rule creditsUntilAward_fold_dom)
      then have "foldl ?f ?m' bs \<noteq> Map.empty" by auto
      with True show ?thesis by (simp add: Let_def)
    next
      case False
      with Cons.IH [of m] show ?thesis by (simp add: Let_def)
    qed
  qed
  from this [of Map.empty "behaviors this"] show ?thesis
    unfolding creditsUntilAward_def by simp
qed

lemma earnableBy_iff:
  "earnableBy this usr \<longleftrightarrow>
     (\<forall>b\<in>set (behaviors this).
        case credit usr (Behavior.shortname b) of None \<Rightarrow> False | Some c \<Rightarrow> Behavior.count b \<le> c)"
proof -
  have "foldl (\<lambda>result v. result \<and> v) a vs \<longleftrightarrow> a \<and> (\<forall>v\<in>set vs. v)" for a vs
    by (induction vs arbitrary: a) auto
  then show ?thesis by (auto simp: earnableBy_def)
qed

lemma earnableBy_creditsUntilAward:
  assumes "\<forall>b\<in>set (behaviors this). credit usr (Behavior.shortname b) \<noteq> None \<or> 0 < Behavior.count b"
  shows "earnableBy this usr \<longleftrightarrow> creditsUntilAward this usr = Map.empty"
  unfolding earnableBy_iff creditsUntilAward_empty_iff
  using assms by (auto split: option.splits) 

text \<open>
  C9. \<open>earnableBy(user)\<close> should be true exactly when \<open>creditsUntilAward(user)\<close> is the
  empty mapping, also when the tally of the user has no entry for a behavior. For a badge
  with one behavior that requires 0 credits and a user without any entry, \<open>earnableBy\<close> is
  false (it compares \<open>undefined\<close> with the requirement) although \<open>creditsUntilAward\<close> is
  empty.
\<close>

theorem earnableBy_missing_entry:
  "earnableBy zero_behavior_badge \<lparr>credit = Map.empty\<rparr> = False \<and>
   creditsUntilAward zero_behavior_badge \<lparr>credit = Map.empty\<rparr> = Map.empty"
  by (simp add: earnableBy_def creditsUntilAward_def zero_behavior_badge_def plain_badge_def)

section \<open>Awarding\<close>

subsection \<open>What every award preserves\<close>














text \<open>The depth bound does not influence a result: a larger bound gives the same.\<close>

lemma asyncMap_mono:
  assumes "\<And>s x r. f s x = Some r \<Longrightarrow> g s x = Some r"
  shows "asyncMap f st xs = Some r \<Longrightarrow> asyncMap g st xs = Some r"
proof (induction xs arbitrary: st r)
  case Nil
  then show ?case by simp
next
  case (Cons x xs)
  from Cons.prems obtain s1 o1 where f: "f st x = Some (s1, o1)"
    by (auto split: option.splits)
  then have g: "g st x = Some (s1, o1)" by (rule assms)
  show ?case
  proof (cases o1)
    case (Uncaught e)
    with Cons.prems f g show ?thesis by auto
  next
    case (Callback args)
    with Cons.prems f obtain r2 where r2: "asyncMap f s1 xs = Some r2"
      by (auto split: option.splits)
    then have "asyncMap g s1 xs = Some r2" by (rule Cons.IH)
    with Cons.prems f g Callback r2 show ?thesis by auto
  qed
qed

lemma concatSeries_mono:
  assumes "\<And>s x r. f s x = Some r \<Longrightarrow> g s x = Some r"
  shows "concatSeries f st xs = Some r \<Longrightarrow> concatSeries g st xs = Some r"
proof (induction xs arbitrary: st r)
  case Nil
  then show ?case by simp
next
  case (Cons x xs)
  from Cons.prems obtain s1 o1 where f: "f st x = Some (s1, o1)"
    by (auto split: option.splits)
  then have g: "g st x = Some (s1, o1)" by (rule assms)
  show ?case
  proof (cases o1)
    case (Done ys)
    with Cons.prems f obtain r2 where r2: "concatSeries f s1 xs = Some r2"
      by (auto split: option.splits)
    then have "concatSeries g s1 xs = Some r2" by (rule Cons.IH)
    with Cons.prems f g Done r2 show ?thesis by auto
  next
    case (Failed e)
    with Cons.prems f g show ?thesis by auto
  next
    case (Threw e)
    with Cons.prems f g show ?thesis by auto
  qed
qed

lemma award_fuel_Suc:
  "award_fuel n env st this email se = Some r \<Longrightarrow> award_fuel (Suc n) env st this email se = Some r"
proof (induction n arbitrary: st this email se r)
  case 0
  then show ?case by simp
next
  case (Suc n)
  let ?iter = "\<lambda>k s category. asyncMap (\<lambda>s' b. award_fuel k env s' b email True) s
                                (cascadeTargets s email category)"
  have iter: "?iter (Suc n) s c = Some q" if "?iter n s c = Some q" for s c q
    using that by (rule asyncMap_mono [rotated]) (rule Suc.IH)
  have series: "concatSeries (?iter (Suc n)) s cs = Some q"
    if "concatSeries (?iter n) s cs = Some q" for s cs q
    using that by (rule concatSeries_mono [rotated]) (rule iter)
  show ?case
  proof (cases "saveInstance env st (newInstance email (badge_id this))")
    case (Done p)
    obtain st1 i1 where p: "p = (st1, i1)" by (cases p)
    define st2 where "st2 = (if se then st1\<lparr>console := console st1 @ [EMAIL_LINE]\<rparr> else st1)"
    show ?thesis
    proof (cases "\<not> truthy (categoryAward this) \<and> categoryWeight this \<noteq> 0")
      case True
      with Suc.prems Done p obtain q where
        q: "concatSeries (?iter n) st2 (categories this) = Some q"
        by (auto simp: st2_def Let_def split: option.splits)
      from series [OF q] q Suc.prems Done p True show ?thesis
        by (simp add: st2_def Let_def del: award_fuel.simps(2))
           (simp add: st2_def Let_def)
    next
      case False
      with Suc.prems Done p show ?thesis by (auto simp: Let_def)
    qed
  next
    case (Failed e)
    with Suc.prems show ?thesis by simp
  next
    case (Threw e)
    with Suc.prems show ?thesis by simp
  qed
qed

lemma award_fuel_mono:
  "award_fuel n env st this email se = Some r \<Longrightarrow> n \<le> m \<Longrightarrow>
   award_fuel m env st this email se = Some r"
proof (induction m)
  case 0
  then show ?case by simp
next
  case (Suc m)
  show ?case
  proof (cases "n = Suc m")
    case True
    with Suc.prems show ?thesis by simp
  next
    case False
    with Suc.prems have "award_fuel m env st this email se = Some r"
      by (intro Suc.IH) simp_all
    then show ?thesis by (rule award_fuel_Suc)
  qed
qed

lemma trim_example_user: "trim ''u@example.org'' = ''u@example.org''"
  by (simp add: trim_def isSpace_def)

lemma regex_example_user: "regexTest regex_email ''u@example.org''"
  by code_simp

lemmas award_eval_simps =
  trim_example_user regex_example_user validInstance_def trim_def isSpace_def
  saveInstance_def assertionDefault_def hashDefault_def userBadgeKeyDefault_def truthy_def
  DUP_KEY_ERROR_CODE_def cascadeTargets_def filterByOwned_def filterByScore_def
  getCategoryBadges_def categoryScore_def findByCategory_def userHasBadge_def
  List.map_filter_def cbError_def cbArg_def Let_def newInstance_def issuedInstance_def
  EMAIL_LINE_def

lemma award_contributor_eval:
  "award_fuel (Suc (Suc 0)) example_env category_store contributor_badge ''u@example.org'' False =
     Some (awarded_store,
           Callback [Null,
                     ArrayV [InstanceV (issuedInstance example_env capstone_badge ''u@example.org'')],
                     ArrayV [InstanceV (issuedInstance example_env capstone_badge ''u@example.org'')]])"
  by (simp add: award_eval_simps example_env_def category_store_def contributor_badge_def
      capstone_badge_def awarded_store_def)

subsection \<open>Awarding twice\<close>



subsection \<open>The callback of a contributing badge\<close>

text \<open>
  C2. An award of a badge that contributes to a category should call back with the
  directly awarded instance as \<open>instance\<close> and with the cascaded instances as
  \<open>cascadedInstances\<close>. The code ends with \<open>callback(null, instances, instances)\<close>: both
  arguments are the array of cascaded instances. In the example the instance of the
  contributing badge is stored, and the callback receives the array holding the instance of
  the capstone in both places.
\<close>

theorem award_contributor_callback:
  "\<exists>st'. award_fuel (Suc (Suc 0)) example_env category_store contributor_badge
            ''u@example.org'' False =
          Some (st', Callback
            [Null,
             ArrayV [InstanceV (issuedInstance example_env capstone_badge ''u@example.org'')],
             ArrayV [InstanceV (issuedInstance example_env capstone_badge ''u@example.org'')]]) \<and>
          issuedInstance example_env contributor_badge ''u@example.org'' \<in> set (instances st')"
  using award_contributor_eval by (simp add: awarded_store_def)

text \<open>The same holds for every award of a contributing badge that calls back without an
  error: the second and the third argument are the same array.\<close>

lemma award_contributor_shape:
  assumes "award_fuel n env st this email se = Some (st', Callback (Null # rest))"
    and "\<not> truthy (categoryAward this)" "categoryWeight this \<noteq> 0"
  shows "\<exists>insts. rest = [ArrayV insts, ArrayV insts]"
proof (cases n)
  case 0
  with assms show ?thesis by simp
next
  case (Suc k)
  with assms show ?thesis
    by (auto simp: Let_def split: async.splits if_splits option.splits prod.splits)
qed

subsection \<open>Awarding a badge whose id is not its shortname\<close>

text \<open>When no stored badge has the \<open>_id\<close> of the awarded badge as its \<open>shortname\<close>,
  the hook finds no badge and the award ends with the TypeError, whatever the rest of the
  input is; nothing is stored and no callback is called.\<close>

lemma award_unknown_shortname:
  assumes "find (\<lambda>b. Badge.shortname b = badge_id this) (badges st) = None"
  shows "award_fuel (Suc n) env st this email sendEmail = Some (st, Uncaught TypeError)"
proof -
  have "saveInstance env st (newInstance email (badge_id this)) = Threw TypeError"
    using assms by (simp add: saveInstance_def assertionDefault_def newInstance_def truthy_def)
  then show ?thesis by simp
qed

text \<open>
  C6. The scenario of the claim, on badges whose \<open>_id\<close> is the one that the schema
  generates: badge A has weight 5 and the category \<open>X\<close>, badge B has
  \<open>categoryAward = X\<close> and \<open>categoryRequirement = 5\<close>, and the user holds neither.
  \<open>award\<close> stores the \<open>_id\<close> of A in the new instance; the hook \<open>assertionDefault\<close>
  looks that value up as a \<open>shortname\<close>, finds no badge and calls \<open>makeAssertion\<close> on
  \<open>null\<close>. The award of A ends with an uncaught TypeError: no instance is stored, B is not
  awarded and no callback is called, at every depth bound and for both values of
  \<open>sendEmail\<close>.
\<close>

theorem award_generated_id:
  "generated_contributor \<in> set (badges generated_store) \<and>
   categoryWeight generated_contributor = 5 \<and>
   ''X'' \<in> set (categories generated_contributor) \<and>
   generated_capstone \<in> set (badges generated_store) \<and>
   categoryAward generated_capstone = Some ''X'' \<and>
   categoryRequirement generated_capstone = 5 \<and>
   instances generated_store = [] \<and>
   award_fuel (Suc n) example_env generated_store generated_contributor ''u@example.org'' sendEmail
     = Some (generated_store, Uncaught TypeError)"
  by (simp add: saveInstance_def assertionDefault_def newInstance_def truthy_def
      generated_store_def generated_contributor_def generated_capstone_def
      contributor_badge_def capstone_badge_def)

subsection \<open>The cascade\<close>

lemma find_unique:
  "distinct (map f xs) \<Longrightarrow> x \<in> set xs \<Longrightarrow> find (\<lambda>y. f y = f x) xs = Some x"
  by (induction xs) (auto simp: image_iff)

lemma convention_find_shortname:
  assumes "badgesConvention bs" "c \<in> set bs"
  shows "find (\<lambda>b. Badge.shortname b = badge_id c) bs = Some c"
proof -
  have eq: "\<And>b. b \<in> set bs \<Longrightarrow> Badge.shortname b = badge_id b"
    using assms(1) by (auto simp: badgesConvention_def list_all_iff)
  have "find (\<lambda>b. Badge.shortname b = badge_id c) bs = find (\<lambda>b. badge_id b = badge_id c) bs"
    using eq by (intro find_cong) auto
  also have "\<dots> = Some c"
    using assms by (intro find_unique) (simp_all add: badgesConvention_def)
  finally show ?thesis .
qed

lemma convention_find_id:
  assumes "badgesConvention bs" "c \<in> set bs"
  shows "find (\<lambda>b. badge_id b = badge_id c) bs = Some c"
  using assms by (intro find_unique) (simp_all add: badgesConvention_def)

lemma saveInstance_fresh:
  assumes conv: "badgesConvention (badges st)"
    and c: "c \<in> set (badges st)"
    and ok: "assertionsSucceed env email (badges st)"
    and fresh: "Some (email @ ''.'' @ badge_id c) \<notin> set (map userBadgeKey (instances st))"
    and tr: "trim email = email"
    and valid: "validUser email"
  shows "saveInstance env st (newInstance email (badge_id c)) =
           Done (st\<lparr>instances := instances st @ [issuedInstance env c email]\<rparr>,
                 issuedInstance env c email)"
proof -
  obtain a where a: "makeAssertion env c email = Inr a" "trim a \<noteq> []"
      "util_hash env (trim a) \<noteq> []"
    using ok c tr by (cases "makeAssertion env c email") (auto simp: assertionsSucceed_def list_all_iff)
  let ?i1 = "(newInstance email (badge_id c))\<lparr>assertion := Some (trim a)\<rparr>"
  have ad: "assertionDefault env st (newInstance email (badge_id c)) = Done ?i1"
    using convention_find_shortname [OF conv c] a tr
    by (simp add: assertionDefault_def newInstance_def truthy_def)
  have i3: "userBadgeKeyDefault (hashDefault env ?i1) = issuedInstance env c email"
    using a tr by (simp add: userBadgeKeyDefault_def hashDefault_def newInstance_def truthy_def
        issuedInstance_def Let_def)
  have key: "userBadgeKey (issuedInstance env c email) = Some (email @ ''.'' @ badge_id c)"
    using tr by (simp add: issuedInstance_def Let_def)
  have v: "validInstance (issuedInstance env c email)"
    using a tr valid
    by (simp add: validInstance_def validUser_def issuedInstance_def Let_def truthy_def)
  show ?thesis
    using fresh ad i3 key v by (simp add: saveInstance_def Let_def)
qed

lemma award_capstone:
  assumes conv: "badgesConvention (badges st)"
    and c: "c \<in> set (badges st)"
    and ok: "assertionsSucceed env email (badges st)"
    and fresh: "Some (email @ ''.'' @ badge_id c) \<notin> set (map userBadgeKey (instances st))"
    and tr: "trim email = email"
    and valid: "validUser email"
    and cap: "truthy (categoryAward c)"
  shows "award_fuel (Suc n) env st c email True =
           Some (st\<lparr>instances := instances st @ [issuedInstance env c email],
                    console := console st @ [EMAIL_LINE]\<rparr>,
                 Callback [Null, InstanceV (issuedInstance env c email), ArrayV []])"
  using saveInstance_fresh [OF conv c ok fresh tr valid] cap
  by (simp add: EMAIL_LINE_def)

lemma asyncMap_capstones:
  assumes conv: "badgesConvention (badges st)"
    and ok: "assertionsSucceed env email (badges st)"
    and tr: "trim email = email"
    and valid: "validUser email"
    and sub: "set cs \<subseteq> set (badges st)"
    and dist: "distinct (map badge_id cs)"
    and cap: "\<And>c. c \<in> set cs \<Longrightarrow> truthy (categoryAward c)"
    and fresh: "\<And>c. c \<in> set cs \<Longrightarrow>
                  Some (email @ ''.'' @ badge_id c) \<notin> set (map userBadgeKey (instances st))"
  shows "asyncMap (\<lambda>s b. award_fuel (Suc n) env s b email True) st cs =
           Some (st\<lparr>instances := instances st @ map (\<lambda>c. issuedInstance env c email) cs,
                    console := console st @ replicate (length cs) EMAIL_LINE\<rparr>,
                 Done (map (\<lambda>c. InstanceV (issuedInstance env c email)) cs))"
  using assms
proof (induction cs arbitrary: st)
  case Nil
  then show ?case by simp
next
  case (Cons c cs)
  let ?st1 = "st\<lparr>instances := instances st @ [issuedInstance env c email],
                 console := console st @ [EMAIL_LINE]\<rparr>"
  have aw: "award_fuel (Suc n) env st c email True =
              Some (?st1, Callback [Null, InstanceV (issuedInstance env c email), ArrayV []])"
    using Cons.prems by (intro award_capstone) auto
  have key: "userBadgeKey (issuedInstance env c email) = Some (email @ ''.'' @ badge_id c)"
    using Cons.prems(3) by (simp add: issuedInstance_def Let_def)
  have rest: "asyncMap (\<lambda>s b. award_fuel (Suc n) env s b email True) ?st1 cs =
           Some (?st1\<lparr>instances := instances ?st1 @ map (\<lambda>c. issuedInstance env c email) cs,
                    console := console ?st1 @ replicate (length cs) EMAIL_LINE\<rparr>,
                 Done (map (\<lambda>c. InstanceV (issuedInstance env c email)) cs))"
  proof (rule Cons.IH)
    show "badgesConvention (badges ?st1)" using Cons.prems(1) by simp
    show "assertionsSucceed env email (badges ?st1)" using Cons.prems(2) by simp
    show "trim email = email" using Cons.prems(3) .
    show "validUser email" using Cons.prems(4) .
    show "set cs \<subseteq> set (badges ?st1)" using Cons.prems(5) by simp
    show "distinct (map badge_id cs)" using Cons.prems(6) by simp
    show "\<And>c. c \<in> set cs \<Longrightarrow> truthy (categoryAward c)" using Cons.prems(7) by simp
    show "\<And>c'. c' \<in> set cs \<Longrightarrow>
            Some (email @ ''.'' @ badge_id c') \<notin> set (map userBadgeKey (instances ?st1))"
      using Cons.prems(6,8) key by (auto simp: image_iff)
  qed
  show ?case
    using aw rest by (simp add: cbError_def cbArg_def replicate_app_Cons_same)
qed

lemma userHasBadge_iff:
  "userHasBadge st u sn \<longleftrightarrow> Some (u @ ''.'' @ sn) \<in> set (map userBadgeKey (instances st))"
  by (force simp: userHasBadge_def find_None_iff image_iff)

lemma cascadeTargets_iff:
  "b \<in> set (cascadeTargets st email cat) \<longleftrightarrow>
     b \<in> set (badges st) \<and> categoryAward b = Some cat \<and>
     categoryRequirement b \<le> categoryScore st email cat \<and>
     \<not> userHasBadge st email (Badge.shortname b)"
  by (auto simp: cascadeTargets_def filterByOwned_def filterByScore_def getCategoryBadges_def
      Let_def)

lemma cascadeTargets_distinct:
  "distinct (map badge_id (badges st)) \<Longrightarrow> distinct (map badge_id (cascadeTargets st email cat))"
  by (simp add: cascadeTargets_def filterByOwned_def filterByScore_def getCategoryBadges_def
      Let_def distinct_map_filter)

lemma foldl_plus_sum_list:
  "foldl (\<lambda>s x. s + f x) a xs = a + sum_list (map f xs)" for a :: int
  by (induction xs arbitrary: a) simp_all

lemma categoryScore_sum:
  "categoryScore st email cat =
     sum_list (map (\<lambda>p. categoryWeight (snd p)) (findByCategory st email cat))"
  by (simp add: categoryScore_def foldl_plus_sum_list)

lemma findByCategory_append:
  fixes st :: Store
  assumes "badges st' = badges st" "instances st' = instances st @ extra"
  shows "findByCategory st' email cat =
           findByCategory st email cat @ findByCategory (st\<lparr>instances := extra\<rparr>) email cat"
  using assms by (simp add: findByCategory_def List.map_filter_def)

lemma find_Some_mem: "find P xs = Some x \<Longrightarrow> x \<in> set xs"
  by (induction xs) (auto split: if_splits)

lemma findByCategory_badge:
  "p \<in> set (findByCategory st email cat) \<Longrightarrow> snd p \<in> set (badges st)"
  by (auto simp: findByCategory_def List.map_filter_def dest: find_Some_mem
      split: if_splits option.splits)

lemma findByCategory_nonneg:
  assumes "badgesConvention (badges st)"
  shows "0 \<le> sum_list (map (\<lambda>p. categoryWeight (snd p)) (findByCategory st email cat))"
proof (rule sum_list_nonneg)
  fix x assume "x \<in> set (map (\<lambda>p. categoryWeight (snd p)) (findByCategory st email cat))"
  then obtain p where "p \<in> set (findByCategory st email cat)" "x = categoryWeight (snd p)"
    by auto
  with findByCategory_badge [of p st email cat] assms show "0 \<le> x"
    by (auto simp: badgesConvention_def list_all_iff)
qed

lemma categoryScore_mono:
  fixes st :: Store
  assumes conv: "badgesConvention (badges st)"
    and "badges st' = badges st" "instances st' = instances st @ extra"
  shows "categoryScore st email cat \<le> categoryScore st' email cat"
proof -
  have "0 \<le> sum_list (map (\<lambda>p. categoryWeight (snd p))
                 (findByCategory (st\<lparr>instances := extra\<rparr>) email cat))"
    using conv by (intro findByCategory_nonneg) simp
  then show ?thesis
    by (simp add: categoryScore_sum findByCategory_append [OF assms(2,3)])
qed

lemma categoryScore_award:
  fixes st :: Store
  assumes conv: "badgesConvention (badges st)"
    and a: "a \<in> set (badges st)" "cat \<in> set (categories a)"
    and "badges st' = badges st" "instances st' = instances st @ [issuedInstance env a email]"
    and tr: "trim email = email"
  shows "categoryWeight a \<le> categoryScore st' email cat"
proof -
  have "findByCategory (st\<lparr>instances := [issuedInstance env a email]\<rparr>) email cat
          = [(issuedInstance env a email, a)]"
    using convention_find_id [OF conv a(1)] a(2) tr
    by (simp add: findByCategory_def List.map_filter_def issuedInstance_def Let_def)
  then have "categoryScore st' email cat = categoryScore st email cat + categoryWeight a"
    by (simp add: categoryScore_sum findByCategory_append [OF assms(4,5)])
  moreover have "0 \<le> categoryScore st email cat"
    using conv by (simp add: categoryScore_sum findByCategory_nonneg)
  ultimately show ?thesis by simp
qed

lemma userHasBadge_later:
  "instances st' = instances st @ extra \<Longrightarrow> \<not> userHasBadge st' u sn \<Longrightarrow> \<not> userHasBadge st u sn"
  by (simp add: userHasBadge_iff)

lemma cascade_series:
  fixes st :: Store
  assumes conv: "badgesConvention (badges st)"
    and ok: "assertionsSucceed env email (badges st)"
    and tr: "trim email = email"
    and valid: "validUser email"
    and ne: "[] \<notin> set cats"
  shows "\<exists>is st'. st' = st\<lparr>instances := instances st @ is,
                              console := console st @ replicate (length is) EMAIL_LINE\<rparr> \<and>
              concatSeries
                (\<lambda>s cat. asyncMap (\<lambda>s' b. award_fuel (Suc n) env s' b email True) s
                             (cascadeTargets s email cat)) st cats
              = Some (st', Done (map InstanceV is)) \<and>
              (\<forall>b. b \<in> set (badges st) \<and> \<not> userHasBadge st email (Badge.shortname b) \<and>
                   (\<exists>x\<in>set cats. categoryAward b = Some x \<and>
                                   categoryRequirement b \<le> categoryScore st email x)
                   \<longrightarrow> issuedInstance env b email \<in> set is) \<and>
              (\<forall>i\<in>set is. \<exists>c\<in>set (badges st). i = issuedInstance env c email \<and>
                   \<not> userHasBadge st email (Badge.shortname c) \<and>
                   (\<exists>x\<in>set cats. categoryAward c = Some x \<and>
                                   categoryRequirement c \<le> categoryScore st' email x))"
  using assms
proof (induction cats arbitrary: st)
  case Nil
  have "st\<lparr>instances := instances st @ [], console := console st @ replicate (length ([]::BadgeInstance list)) EMAIL_LINE\<rparr> = st"
    by simp
  then show ?case
    by (intro exI [of _ "[]"] exI [of _ st]) simp
next
  case (Cons cat cats)
  let ?f = "\<lambda>s' b. award_fuel (Suc n) env s' b email True"
  let ?iter = "\<lambda>s cat. asyncMap ?f s (cascadeTargets s email cat)"
  let ?ts = "cascadeTargets st email cat"
  let ?is1 = "map (\<lambda>c. issuedInstance env c email) ?ts"
  let ?st1 = "st\<lparr>instances := instances st @ ?is1,
                 console := console st @ replicate (length ?ts) EMAIL_LINE\<rparr>"
  have catne: "cat \<noteq> []" using Cons.prems(5) by auto
  have tr: "trim email = email" using Cons.prems(3) .
  have ids: "\<And>b. b \<in> set (badges st) \<Longrightarrow> Badge.shortname b = badge_id b"
    using Cons.prems(1) by (auto simp: badgesConvention_def list_all_iff)
  have inj: "\<And>b c. b \<in> set (badges st) \<Longrightarrow> c \<in> set (badges st) \<Longrightarrow>
                 badge_id b = badge_id c \<Longrightarrow> b = c"
    using Cons.prems(1) by (auto simp: badgesConvention_def distinct_map inj_on_def)
  have first: "asyncMap ?f st ?ts = Some (?st1, Done (map (\<lambda>c. InstanceV (issuedInstance env c email)) ?ts))"
  proof (rule asyncMap_capstones [OF Cons.prems(1,2,3,4)])
    show "set ?ts \<subseteq> set (badges st)" by (auto simp: cascadeTargets_iff)
    show "distinct (map badge_id ?ts)"
      using Cons.prems(1) by (intro cascadeTargets_distinct) (simp add: badgesConvention_def)
    show "\<And>c. c \<in> set ?ts \<Longrightarrow> truthy (categoryAward c)"
      using catne by (simp add: cascadeTargets_iff truthy_def)
    show "\<And>c. c \<in> set ?ts \<Longrightarrow>
            Some (email @ ''.'' @ badge_id c) \<notin> set (map userBadgeKey (instances st))"
      using ids by (auto simp: cascadeTargets_iff userHasBadge_iff)
  qed
  have "\<exists>is st'. st' = ?st1\<lparr>instances := instances ?st1 @ is,
                         console := console ?st1 @ replicate (length is) EMAIL_LINE\<rparr> \<and>
              concatSeries ?iter ?st1 cats = Some (st', Done (map InstanceV is)) \<and>
              (\<forall>b. b \<in> set (badges ?st1) \<and> \<not> userHasBadge ?st1 email (Badge.shortname b) \<and>
                   (\<exists>x\<in>set cats. categoryAward b = Some x \<and>
                                   categoryRequirement b \<le> categoryScore ?st1 email x)
                   \<longrightarrow> issuedInstance env b email \<in> set is) \<and>
              (\<forall>i\<in>set is. \<exists>c\<in>set (badges ?st1). i = issuedInstance env c email \<and>
                   \<not> userHasBadge ?st1 email (Badge.shortname c) \<and>
                   (\<exists>x\<in>set cats. categoryAward c = Some x \<and>
                                   categoryRequirement c \<le> categoryScore st' email x))"
    using Cons.prems by (intro Cons.IH) simp_all
  then obtain is2 st2 where
    st2: "st2 = ?st1\<lparr>instances := instances ?st1 @ is2,
                         console := console ?st1 @ replicate (length is2) EMAIL_LINE\<rparr>" and
    rest: "concatSeries ?iter ?st1 cats = Some (st2, Done (map InstanceV is2))" and
    later: "\<And>b. b \<in> set (badges ?st1) \<Longrightarrow> \<not> userHasBadge ?st1 email (Badge.shortname b) \<Longrightarrow>
                   (\<exists>x\<in>set cats. categoryAward b = Some x \<and>
                                   categoryRequirement b \<le> categoryScore ?st1 email x)
                   \<Longrightarrow> issuedInstance env b email \<in> set is2" and
    only2: "\<And>i. i \<in> set is2 \<Longrightarrow> \<exists>c\<in>set (badges ?st1). i = issuedInstance env c email \<and>
                   \<not> userHasBadge ?st1 email (Badge.shortname c) \<and>
                   (\<exists>x\<in>set cats. categoryAward c = Some x \<and>
                                   categoryRequirement c \<le> categoryScore st2 email x)"
    by blast
  have st2': "st2 = st\<lparr>instances := instances st @ (?is1 @ is2),
                         console := console st @ replicate (length (?is1 @ is2)) EMAIL_LINE\<rparr>"
    by (simp add: st2 replicate_add)
  have run: "concatSeries ?iter st (cat # cats) = Some (st2, Done (map InstanceV (?is1 @ is2)))"
    using first rest by (simp add: comp_def)
  have awarded: "issuedInstance env b email \<in> set (?is1 @ is2)"
    if b: "b \<in> set (badges st)" and nh: "\<not> userHasBadge st email (Badge.shortname b)"
      and x: "x \<in> set (cat # cats)" "categoryAward b = Some x"
             "categoryRequirement b \<le> categoryScore st email x" for b x
  proof (cases "b \<in> set ?ts")
    case True
    then show ?thesis by simp
  next
    case False
    with b nh x have "x \<noteq> cat" by (auto simp: cascadeTargets_iff)
    with x have xin: "x \<in> set cats" by simp
    have "categoryScore st email x \<le> categoryScore ?st1 email x"
      using Cons.prems(1) by (rule categoryScore_mono) simp_all
    with x have sc: "categoryRequirement b \<le> categoryScore ?st1 email x" by simp
    have "Some (email @ ''.'' @ badge_id b) \<notin> set (map userBadgeKey ?is1)"
    proof
      assume "Some (email @ ''.'' @ badge_id b) \<in> set (map userBadgeKey ?is1)"
      then obtain c where c: "c \<in> set ?ts" "badge_id c = badge_id b"
        using tr by (auto simp: issuedInstance_def Let_def)
      then have "c \<in> set (badges st)" by (simp add: cascadeTargets_iff)
      with c b have "c = b" using inj by blast
      with c False show False by simp
    qed
    with nh ids [OF b] have "\<not> userHasBadge ?st1 email (Badge.shortname b)"
      by (simp add: userHasBadge_iff)
    with b xin x sc have "issuedInstance env b email \<in> set is2"
      by (intro later) auto
    then show ?thesis by simp
  qed
  have only: "\<exists>c\<in>set (badges st). i = issuedInstance env c email \<and>
                   \<not> userHasBadge st email (Badge.shortname c) \<and>
                   (\<exists>x\<in>set (cat # cats). categoryAward c = Some x \<and>
                                   categoryRequirement c \<le> categoryScore st2 email x)"
    if i: "i \<in> set (?is1 @ is2)" for i
  proof (cases "i \<in> set ?is1")
    case True
    then obtain c where c: "c \<in> set ?ts" "i = issuedInstance env c email" by auto
    have "categoryScore st email cat \<le> categoryScore st2 email cat"
      using Cons.prems(1) by (rule categoryScore_mono) (simp_all add: st2')
    with c show ?thesis by (auto simp: cascadeTargets_iff)
  next
    case False
    with i have "i \<in> set is2" by simp
    from only2 [OF this] obtain c x where
      c: "c \<in> set (badges st)" "i = issuedInstance env c email"
         "\<not> userHasBadge ?st1 email (Badge.shortname c)"
         "x \<in> set cats" "categoryAward c = Some x"
         "categoryRequirement c \<le> categoryScore st2 email x"
      by auto
    have "\<not> userHasBadge st email (Badge.shortname c)"
      using c(3) by (rule userHasBadge_later [rotated]) simp
    with c show ?thesis by auto
  qed
  show ?case
    using run awarded only st2' by (intro exI [of _ "?is1 @ is2"] exI [of _ st2]) blast
qed

text \<open>
  The scenario in a store whose badges have their \<open>shortname\<close> as \<open>_id\<close> (so that the
  value \<open>award\<close> stores in the instance is found when it is looked up as a shortname).
  Let badge \<open>a\<close> have no \<open>categoryAward\<close>, weight 5 and the category \<open>x\<close> among its
  (non-empty) categories, let badge \<open>b\<close> have \<open>categoryAward = x\<close> and
  \<open>categoryRequirement = 5\<close>, and let the user, a valid address, hold neither. Then
  awarding \<open>a\<close> stores an instance of \<open>a\<close> and calls back with the cascaded instances,
  among them the instance of \<open>b\<close>; every cascaded award writes the email line (\<open>sendEmail\<close>
  is true for it, whatever the caller asked for); and every cascaded instance belongs to a
  badge that the user did not hold and whose requirement the score of its category meets.
  Any depth bound of at least 2 is enough.
\<close>

lemma award_cascade_by_shortname:
  fixes st :: Store
  assumes conv: "badgesConvention (badges st)"
    and ok: "assertionsSucceed env u (badges st)"
    and tr: "trim u = u"
    and valid: "validUser u"
    and a: "a \<in> set (badges st)" "\<not> truthy (categoryAward a)" "categoryWeight a = 5"
           "x \<in> set (categories a)" "[] \<notin> set (categories a)"
    and b: "b \<in> set (badges st)" "categoryAward b = Some x" "categoryRequirement b = 5"
    and holds: "\<not> userHasBadge st u (Badge.shortname a)" "\<not> userHasBadge st u (Badge.shortname b)"
  shows "\<exists>is st'.
           st' = st\<lparr>instances := instances st @ issuedInstance env a u # is,
                     console := console st @ (if sendEmail then [EMAIL_LINE] else []) @
                                replicate (length is) EMAIL_LINE\<rparr> \<and>
           award_fuel (Suc (Suc n)) env st a u sendEmail =
             Some (st', Callback [Null, ArrayV (map InstanceV is), ArrayV (map InstanceV is)]) \<and>
           issuedInstance env b u \<in> set is \<and>
           (\<forall>i\<in>set is. \<exists>c\<in>set (badges st). i = issuedInstance env c u \<and>
               \<not> userHasBadge st u (Badge.shortname c) \<and>
               (\<exists>cat\<in>set (categories a). categoryAward c = Some cat \<and>
                   categoryRequirement c \<le> categoryScore st' u cat))"
proof -
  let ?ia = "issuedInstance env a u"
  let ?st1 = "st\<lparr>instances := instances st @ [?ia]\<rparr>"
  let ?st2 = "if sendEmail then ?st1\<lparr>console := console ?st1 @ [EMAIL_LINE]\<rparr> else ?st1"
  let ?iter = "\<lambda>s cat. asyncMap (\<lambda>s' b. award_fuel (Suc n) env s' b u True) s
                           (cascadeTargets s u cat)"
  have ids: "\<And>c. c \<in> set (badges st) \<Longrightarrow> Badge.shortname c = badge_id c"
    using conv by (auto simp: badgesConvention_def list_all_iff)
  have inj: "\<And>b c. b \<in> set (badges st) \<Longrightarrow> c \<in> set (badges st) \<Longrightarrow>
                 badge_id b = badge_id c \<Longrightarrow> b = c"
    using conv by (auto simp: badgesConvention_def distinct_map inj_on_def)
  have xne: "x \<noteq> []" using a(4,5) by auto
  have ab: "a \<noteq> b" using a(2) b(2) xne by (auto simp: truthy_def)
  have sv: "saveInstance env st (newInstance u (badge_id a)) = Done (?st1, ?ia)"
    using conv a(1) ok holds(1) ids [OF a(1)] tr valid
    by (intro saveInstance_fresh) (simp_all add: userHasBadge_iff)
  have bs2: "badges ?st2 = badges st" by simp
  have in2: "instances ?st2 = instances st @ [?ia]" by simp
  have co2: "console ?st2 = console st @ (if sendEmail then [EMAIL_LINE] else [])"
    by (simp add: EMAIL_LINE_def)
  have "\<exists>is st'. st' = ?st2\<lparr>instances := instances ?st2 @ is,
                              console := console ?st2 @ replicate (length is) EMAIL_LINE\<rparr> \<and>
              concatSeries ?iter ?st2 (categories a) = Some (st', Done (map InstanceV is)) \<and>
              (\<forall>b. b \<in> set (badges ?st2) \<and> \<not> userHasBadge ?st2 u (Badge.shortname b) \<and>
                   (\<exists>x\<in>set (categories a). categoryAward b = Some x \<and>
                                   categoryRequirement b \<le> categoryScore ?st2 u x)
                   \<longrightarrow> issuedInstance env b u \<in> set is) \<and>
              (\<forall>i\<in>set is. \<exists>c\<in>set (badges ?st2). i = issuedInstance env c u \<and>
                   \<not> userHasBadge ?st2 u (Badge.shortname c) \<and>
                   (\<exists>x\<in>set (categories a). categoryAward c = Some x \<and>
                                   categoryRequirement c \<le> categoryScore st' u x))"
    using conv ok a(5) tr valid by (intro cascade_series) simp_all
  then obtain "is" st' where
    st': "st' = ?st2\<lparr>instances := instances ?st2 @ is,
                      console := console ?st2 @ replicate (length is) EMAIL_LINE\<rparr>" and
    run: "concatSeries ?iter ?st2 (categories a) = Some (st', Done (map InstanceV is))" and
    gets: "\<And>b. b \<in> set (badges ?st2) \<Longrightarrow> \<not> userHasBadge ?st2 u (Badge.shortname b) \<Longrightarrow>
                   (\<exists>x\<in>set (categories a). categoryAward b = Some x \<and>
                                   categoryRequirement b \<le> categoryScore ?st2 u x)
                   \<Longrightarrow> issuedInstance env b u \<in> set is" and
    only: "\<And>i. i \<in> set is \<Longrightarrow> \<exists>c\<in>set (badges ?st2). i = issuedInstance env c u \<and>
                   \<not> userHasBadge ?st2 u (Badge.shortname c) \<and>
                   (\<exists>x\<in>set (categories a). categoryAward c = Some x \<and>
                                   categoryRequirement c \<le> categoryScore st' u x)"
    by blast
  have st'_eq: "st' = st\<lparr>instances := instances st @ ?ia # is,
                     console := console st @ (if sendEmail then [EMAIL_LINE] else []) @
                                replicate (length is) EMAIL_LINE\<rparr>"
    by (simp add: st' EMAIL_LINE_def)
  have aw: "award_fuel (Suc (Suc n)) env st a u sendEmail =
             Some (st', Callback [Null, ArrayV (map InstanceV is), ArrayV (map InstanceV is)])"
    using sv a(2,3) run by (simp add: Let_def)
  have score: "categoryWeight a \<le> categoryScore ?st2 u x"
    using conv a(1,4) bs2 in2 tr by (rule categoryScore_award)
  have "badge_id a \<noteq> badge_id b" using inj a(1) b(1) ab by blast
  then have nb: "\<not> userHasBadge ?st2 u (Badge.shortname b)"
    using holds(2) ids [OF b(1)] tr by (simp add: userHasBadge_iff issuedInstance_def Let_def)
  have bin: "issuedInstance env b u \<in> set is"
  proof (rule gets)
    show "b \<in> set (badges ?st2)" using b(1) by simp
    show "\<not> userHasBadge ?st2 u (Badge.shortname b)" by (rule nb)
    show "\<exists>x\<in>set (categories a). categoryAward b = Some x \<and>
             categoryRequirement b \<le> categoryScore ?st2 u x"
      using a(3,4) b(2,3) score by auto
  qed
  have conv': "\<exists>c\<in>set (badges st). i = issuedInstance env c u \<and>
               \<not> userHasBadge st u (Badge.shortname c) \<and>
               (\<exists>cat\<in>set (categories a). categoryAward c = Some cat \<and>
                   categoryRequirement c \<le> categoryScore st' u cat)" if "i \<in> set is" for i
  proof -
    from only [OF that] obtain c where
      c: "c \<in> set (badges st)" "i = issuedInstance env c u"
         "\<not> userHasBadge ?st2 u (Badge.shortname c)"
         "\<exists>x\<in>set (categories a). categoryAward c = Some x \<and>
                categoryRequirement c \<le> categoryScore st' u x"
      by (auto simp only: bs2)
    have "\<not> userHasBadge st u (Badge.shortname c)"
      using in2 c(3) by (rule userHasBadge_later)
    with c show ?thesis by blast
  qed
  show ?thesis
    using st'_eq aw bin conv'
    by (intro exI [of _ "is"] exI [of _ st']) blast
qed

lemma award_cascade_by_shortname_example:
  "badgesConvention (badges category_store) \<and>
   assertionsSucceed example_env ''u@example.org'' (badges category_store) \<and>
   \<not> userHasBadge category_store ''u@example.org'' (Badge.shortname contributor_badge) \<and>
   \<not> userHasBadge category_store ''u@example.org'' (Badge.shortname capstone_badge) \<and>
   (\<exists>is st'. award_fuel (Suc (Suc 0)) example_env category_store contributor_badge
                ''u@example.org'' False =
              Some (st', Callback [Null, ArrayV (map InstanceV is), ArrayV (map InstanceV is)]) \<and>
              console st' = replicate (length is) EMAIL_LINE \<and>
              issuedInstance example_env capstone_badge ''u@example.org'' \<in> set is)"
proof -
  have conv: "badgesConvention (badges category_store)"
    by (simp add: badgesConvention_def category_store_def contributor_badge_def capstone_badge_def)
  have ok: "assertionsSucceed example_env ''u@example.org'' (badges category_store)"
    by (simp add: assertionsSucceed_def category_store_def example_env_def trim_def isSpace_def
        contributor_badge_def capstone_badge_def)
  have tr: "trim ''u@example.org'' = ''u@example.org''"
    by (rule trim_example_user)
  have valid: "validUser ''u@example.org''"
    by (simp add: validUser_def trim_example_user regex_example_user)
  have a: "contributor_badge \<in> set (badges category_store)"
      "\<not> truthy (categoryAward contributor_badge)" "categoryWeight contributor_badge = 5"
      "''X'' \<in> set (categories contributor_badge)" "[] \<notin> set (categories contributor_badge)"
    by (simp_all add: category_store_def contributor_badge_def truthy_def)
  have b: "capstone_badge \<in> set (badges category_store)"
      "categoryAward capstone_badge = Some ''X''" "categoryRequirement capstone_badge = 5"
    by (simp_all add: category_store_def capstone_badge_def)
  have h: "\<not> userHasBadge category_store ''u@example.org'' (Badge.shortname contributor_badge)"
      "\<not> userHasBadge category_store ''u@example.org'' (Badge.shortname capstone_badge)"
    by (simp_all add: userHasBadge_def category_store_def)
  show ?thesis
    using conv ok h
      award_cascade_by_shortname [OF conv ok tr valid a b h, where n = 0 and sendEmail = False]
    by (auto simp: category_store_def)
qed

section \<open>Generating claim codes\<close>

subsection \<open>One round of addClaimCodes\<close>




lemma sortCodes_none:
  "\<forall>c\<in>set cs. inArray E c \<or> reachedLimit acc lim \<Longrightarrow>
   sortCodes E lim acc rej cs = (acc, rej @ cs)"
  by (induction cs arbitrary: rej) auto










text \<open>One call of \<open>addClaimCodes\<close> on codes that are already clean, by what the sorting
  loop returns.\<close>

lemma addClaimCodes_unfold:
  assumes nothrow: "\<not> (truthy rf \<and> length cs \<noteq> 1)"
    and sc: "sortCodes (getAllClaimCodes st) (effectiveLimit lim) [] [] cs = (a, r)"
  shows "addClaimCodes env st this cs lim m rf True =
      (if a = [] then (st, this, Done (a, r))
       else let pushed = map (newClaimCode m rf) a;
                this1 = preValidate env (this\<lparr>claimCodes := claimCodes this @ pushed\<rparr>)
            in if violatesUnique (badges st) this1
               then (st, this1, Failed (MongoError DUP_KEY_ERROR_CODE))
               else (st\<lparr>badges := writeBadge this1 pushed (badges st)\<rparr>, this1, Done (a, r)))"
  using nothrow sc by (auto simp: addClaimCodes_def saveBadge_def Let_def)





text \<open>Codes that are all in use are all rejected, and so is every code when the limit is
  negative: nothing is saved.\<close>

lemma addClaimCodes_nothing:
  assumes nothrow: "\<not> (truthy rf \<and> length cs \<noteq> 1)"
    and n: "n \<noteq> 0"
    and taken: "n < 0 \<or> set cs \<subseteq> set (getAllClaimCodes st)"
  shows "addClaimCodes env st this cs (Some n) m rf True = (st, this, Done ([], cs))"
proof -
  have "\<forall>c\<in>set cs. inArray (getAllClaimCodes st) c \<or> reachedLimit [] (Finite n)"
    using taken by (auto simp: inArray_def reachedLimit_def)
  then have "sortCodes (getAllClaimCodes st) (Finite n) [] [] cs = ([], [] @ cs)"
    by (rule sortCodes_none)
  then have sc: "sortCodes (getAllClaimCodes st) (effectiveLimit (Some n)) [] [] cs = ([], cs)"
    using n by (simp add: effectiveLimit_def)
  show ?thesis
    unfolding addClaimCodes_unfold [OF nothrow sc] by simp
qed

subsection \<open>The loop\<close>




subsection \<open>generateClaimCodes\<close>


text \<open>The codes that the callback receives are the phrases as the generator made them; the
  store holds them trimmed, and the codes of a batch are not compared with each other. So a
  phrase with white space at an end can be accepted in two rounds, and a phrase that a
  batch holds twice is accepted twice: the callback receives the same code twice.\<close>

lemma generateClaimCodes_padded_phrase:
  "map_option (\<lambda>r. (map code (claimCodes (fst (snd r))), snd (snd r)))
     (generateClaimCodes example_env padded_generator empty_store plain_badge 2 None)
   = Some ([''x'', ''x''], Done ['' x'', '' x''])"
proof -
  have tr: "trim '' x'' = ''x''" by (simp add: trim_def isSpace_def)
  let ?c = "\<lparr>code = ''x'', claimedBy = None, reservedFor = None, multi = False\<rparr>"
  let ?b1 = "plain_badge\<lparr>claimCodes := [?c]\<rparr>"
  let ?s1 = "empty_store\<lparr>badges := [?b1]\<rparr>"
  let ?b2 = "plain_badge\<lparr>claimCodes := [?c, ?c]\<rparr>"
  let ?s2 = "empty_store\<lparr>badges := [?b2]\<rparr>"
  have a1: "addClaimCodes example_env empty_store plain_badge ['' x''] (Some 2) False None True
              = (?s1, ?b1, Done (['' x''], []))"
    by (simp add: addClaimCodes_def truthy_def effectiveLimit_def getAllClaimCodes_def
        empty_store_def plain_badge_def inArray_def reachedLimit_def saveBadge_def
        preValidate_def normalizeCategoryInfo_def setShortNameDefault_def violatesUnique_def
        writeBadge_def newClaimCode_def tr Let_def)
  have a2: "addClaimCodes example_env ?s1 ?b1 ['' x''] (Some 1) False None True
              = (?s2, ?b2, Done (['' x''], []))"
    by (simp add: addClaimCodes_def truthy_def effectiveLimit_def getAllClaimCodes_def
        empty_store_def plain_badge_def inArray_def reachedLimit_def saveBadge_def
        preValidate_def normalizeCategoryInfo_def setShortNameDefault_def violatesUnique_def
        writeBadge_def newClaimCode_def tr Let_def)
  have "generateLoop example_env padded_generator None 2 0 empty_store plain_badge []
          = generateLoop example_env padded_generator None 2 (Suc 0) ?s1 ?b1 ['' x'']"
    by (subst generateLoop.simps) (simp add: padded_generator_def a1)
  also have "\<dots> = generateLoop example_env padded_generator None 2 (Suc (Suc 0)) ?s2 ?b2
                      ['' x'', '' x'']"
    by (subst generateLoop.simps) (simp add: padded_generator_def a2)
  also have "\<dots> = Some (?s2, ?b2, Done ['' x'', '' x''])"
    by (subst generateLoop.simps) simp
  finally show ?thesis
    by (simp add: generateClaimCodes_def truthy_def)
qed

lemma generateClaimCodes_double_phrase:
  "map_option (\<lambda>r. snd (snd r))
     (generateClaimCodes example_env double_generator empty_store plain_badge 2 None)
   = Some (Done [''a'', ''a''])"
proof -
  have tr: "trim ''a'' = ''a''" by (simp add: trim_def isSpace_def)
  let ?c = "\<lparr>code = ''a'', claimedBy = None, reservedFor = None, multi = False\<rparr>"
  let ?b1 = "plain_badge\<lparr>claimCodes := [?c, ?c]\<rparr>"
  let ?s1 = "empty_store\<lparr>badges := [?b1]\<rparr>"
  have a1: "addClaimCodes example_env empty_store plain_badge [''a'', ''a''] (Some 2) False None True
              = (?s1, ?b1, Done ([''a'', ''a''], []))"
    by (simp add: addClaimCodes_def truthy_def effectiveLimit_def getAllClaimCodes_def
        empty_store_def plain_badge_def inArray_def reachedLimit_def saveBadge_def
        preValidate_def normalizeCategoryInfo_def setShortNameDefault_def violatesUnique_def
        writeBadge_def newClaimCode_def tr Let_def)
  have "generateLoop example_env double_generator None 2 0 empty_store plain_badge []
          = generateLoop example_env double_generator None 2 (Suc 0) ?s1 ?b1 [''a'', ''a'']"
    by (subst generateLoop.simps) (simp add: double_generator_def a1)
  also have "\<dots> = Some (?s1, ?b1, Done [''a'', ''a''])"
    by (subst generateLoop.simps) simp
  finally show ?thesis
    by (simp add: generateClaimCodes_def truthy_def)
qed



text \<open>The run of the example: three rounds in which the phrase is rejected, then a round
  that accepts the fresh phrase and saves the badge.\<close>

lemma retry_run:
  "generateClaimCodes example_env retry_generator taken_store plain_badge 1 None
     = Some (fresh_store, fresh_badge, Done [''fresh''])"
proof -
  have taken: "addClaimCodes example_env taken_store plain_badge [''taken''] (Some 1) False None True
                 = (taken_store, plain_badge, Done ([], [''taken'']))"
    by (intro addClaimCodes_nothing)
       (simp_all add: truthy_def getAllClaimCodes_def taken_store_def taken_badge_def
         plain_badge_def)
  have fresh: "addClaimCodes example_env taken_store plain_badge [''fresh''] (Some 1) False None True
                 = (fresh_store, fresh_badge, Done ([''fresh''], []))"
    by (simp add: addClaimCodes_def truthy_def effectiveLimit_def getAllClaimCodes_def
        taken_store_def taken_badge_def plain_badge_def inArray_def reachedLimit_def
        saveBadge_def preValidate_def normalizeCategoryInfo_def setShortNameDefault_def
        violatesUnique_def writeBadge_def newClaimCode_def fresh_store_def fresh_badge_def
        trim_def isSpace_def Let_def)
  have round: "generateLoop example_env retry_generator None 1 k taken_store plain_badge []
                 = generateLoop example_env retry_generator None 1 (Suc k) taken_store plain_badge []"
    if "k < 3" for k
    using that by (subst generateLoop.simps) (simp add: retry_generator_def taken)
  have "generateLoop example_env retry_generator None 1 0 taken_store plain_badge []
          = generateLoop example_env retry_generator None 1 (Suc 0) taken_store plain_badge []"
    by (rule round) simp
  also have "\<dots> = generateLoop example_env retry_generator None 1 (Suc (Suc 0)) taken_store
                      plain_badge []"
    by (rule round) simp
  also have "\<dots> = generateLoop example_env retry_generator None 1 (Suc (Suc (Suc 0))) taken_store
                      plain_badge []"
    by (rule round) simp
  also have "\<dots> = generateLoop example_env retry_generator None 1 (Suc (Suc (Suc (Suc 0))))
                      fresh_store fresh_badge [''fresh'']"
    by (subst generateLoop.simps) (simp add: retry_generator_def fresh)
  also have "\<dots> = Some (fresh_store, fresh_badge, Done [''fresh''])"
    by (subst generateLoop.simps) simp
  finally show ?thesis
    by (simp add: generateClaimCodes_def truthy_def)
qed

end
